theory Spec2Isabelle
  imports Complex_Main
begin

section \<open>Numbers, vectors and boxes\<close>

text \<open>
  A JavaScript \<^verbatim>\<open>number\<close> is an IEEE 754 double. A finite double is modelled as the
  \<^typ>\<open>real\<close> it denotes; the sign of zero is not kept. The arithmetic of the smoothing and
  the division of the scale factor are modelled with their rounding: an operation on
  doubles is the exact operation on reals followed by the rounding to the nearest double,
  and a quotient may overflow to an infinity. The target rotation, the matrices and the
  boxes are computed exactly, and \<^verbatim>\<open>Math.PI\<close> is \<^term>\<open>pi\<close>: the statements on them are
  statements about this exact arithmetic.
\<close>

text \<open>The integer nearest to a real; halfway between two integers, the even one.\<close>

definition roundHalfEven :: "real \<Rightarrow> int" where
  "roundHalfEven z =
     (let f = \<lfloor>z\<rfloor> in
        if z - of_int f < 1 / 2 then f
        else if 1 / 2 < z - of_int f then f + 1
        else if even f then f else f + 1)"

text \<open>
  The exponent of the spacing of the doubles around \<open>r\<close>. A double has 53 significant
  bits; below \<open>2 ^ - 1022\<close>, among the subnormal numbers, the spacing stays \<open>2 ^ - 1074\<close>.
\<close>

definition ulpExponent :: "real \<Rightarrow> int" where
  "ulpExponent r = max \<lfloor>log 2 \<bar>r\<bar>\<rfloor> (- 1022) - 52"

text \<open>
  The rounding to the nearest double, ties to even, that every arithmetic operation of
  JavaScript ends with. The largest double is \<open>2 ^ 1024 - 2 ^ 971\<close>: up to the threshold
  \<open>2 ^ 1024 - 2 ^ 970\<close> this is the rounding of IEEE 754, and from there on an operation
  overflows, which \<open>toDouble\<close> below accounts for.
\<close>

definition roundToDouble :: "real \<Rightarrow> real" where
  "roundToDouble r =
     (if r = 0 then 0
      else of_int (roundHalfEven (r / 2 powr of_int (ulpExponent r))) * 2 powr of_int (ulpExponent r))"

text \<open>A number that may not be finite, as a division gives it.\<close>

datatype JSNumber = Double real | PositiveInfinity | NegativeInfinity | NaN

definition overflowThreshold :: real where
  "overflowThreshold = 2 ^ 1024 - 2 ^ 970"

text \<open>The rounded result of an operation: an infinity from the overflow threshold on.\<close>

definition toDouble :: "real \<Rightarrow> JSNumber" where
  "toDouble r =
     (if overflowThreshold \<le> r then PositiveInfinity
      else if r \<le> - overflowThreshold then NegativeInfinity
      else Double (roundToDouble r))"

text \<open>
  \<^verbatim>\<open>a / b\<close> on finite doubles. The zero of the model has no sign: \<open>a / 0\<close> is given the
  sign of \<open>a\<close>, as for the divisor \<^verbatim>\<open>+0\<close>.
\<close>

definition jsDivide :: "real \<Rightarrow> real \<Rightarrow> JSNumber" where
  "jsDivide a b =
     (if b = 0 then (if a = 0 then NaN else if 0 < a then PositiveInfinity else NegativeInfinity)
      else toDouble (a / b))"

text \<open>\<^verbatim>\<open>THREE.Vector3\<close> with its fields \<^verbatim>\<open>x\<close>, \<^verbatim>\<open>y\<close>, \<^verbatim>\<open>z\<close>.\<close>

datatype Vector3 = Vector3 (vx: real) (vy: real) (vz: real)

text \<open>\<^verbatim>\<open>a.sub(b)\<close>, \<^verbatim>\<open>t.subVectors(a, b)\<close>, \<^verbatim>\<open>t.addVectors(a, b)\<close>, \<^verbatim>\<open>v.multiplyScalar(s)\<close>,
  \<^verbatim>\<open>a.min(b)\<close> and \<^verbatim>\<open>a.max(b)\<close> of \<^verbatim>\<open>THREE.Vector3\<close>, all componentwise.\<close>

definition subVectors :: "Vector3 \<Rightarrow> Vector3 \<Rightarrow> Vector3" where
  "subVectors a b = Vector3 (vx a - vx b) (vy a - vy b) (vz a - vz b)"

definition addVectors :: "Vector3 \<Rightarrow> Vector3 \<Rightarrow> Vector3" where
  "addVectors a b = Vector3 (vx a + vx b) (vy a + vy b) (vz a + vz b)"

definition multiplyScalar :: "Vector3 \<Rightarrow> real \<Rightarrow> Vector3" where
  "multiplyScalar v s = Vector3 (vx v * s) (vy v * s) (vz v * s)"

definition minV :: "Vector3 \<Rightarrow> Vector3 \<Rightarrow> Vector3" where
  "minV a b = Vector3 (min (vx a) (vx b)) (min (vy a) (vy b)) (min (vz a) (vz b))"

definition maxV :: "Vector3 \<Rightarrow> Vector3 \<Rightarrow> Vector3" where
  "maxV a b = Vector3 (max (vx a) (vx b)) (max (vy a) (vy b)) (max (vz a) (vz b))"

section \<open>Hand tracking: the \<^verbatim>\<open>predict\<close> loop of \<^verbatim>\<open>App.tsx\<close>\<close>

text \<open>\<^verbatim>\<open>HandLandmark\<close> and \<^verbatim>\<open>HandResults\<close> as declared in the repository's types.\<close>

datatype HandLandmark = HandLandmark (lx: real) (ly: real) (lz: real)

record HandResults =
  landmarks :: "HandLandmark list list"
  worldLandmarks :: "HandLandmark list list"

text \<open>
  What one invocation of \<^verbatim>\<open>predict\<close> finds: \<^verbatim>\<open>video.currentTime\<close>, and the value
  \<^verbatim>\<open>handLandmarker.detectForVideo\<close> returns for the frame shown at that time.
\<close>

record VideoFrame =
  currentTime :: real
  detection :: HandResults

text \<open>
  The state \<^verbatim>\<open>predict\<close> reads and writes: the React state \<^verbatim>\<open>rotation\<close> (here
  \<open>targetRotation\<close>, the name \<open>rotation\<close> being the field of \<^verbatim>\<open>Object3D\<close> below) and the
  ref \<^verbatim>\<open>lastVideoTime\<close>. \<open>detectCalls\<close> is a trace: it counts the calls of
  \<^verbatim>\<open>detectForVideo\<close>.
\<close>

record AppState =
  targetRotation :: "real \<times> real \<times> real"
  lastVideoTime :: real
  detectCalls :: nat

definition initialApp :: AppState where
  "initialApp = \<lparr>targetRotation = (0, 0, 0), lastVideoTime = -1, detectCalls = 0\<rparr>"

text \<open>Reading a field of \<^verbatim>\<open>undefined\<close> throws.\<close>

datatype js_error = TypeError

text \<open>\<^verbatim>\<open>xs[i]\<close> on a JavaScript array: \<^verbatim>\<open>undefined\<close> out of range.\<close>

definition arrayAt :: "'a list \<Rightarrow> nat \<Rightarrow> 'a option" where
  "arrayAt xs i = (if i < length xs then Some (xs ! i) else None)"

text \<open>
  One invocation of \<^verbatim>\<open>predict\<close>. \<open>handLandmarker\<close> is the truthiness of the value
  \<^verbatim>\<open>createHandLandmarker\<close> resolved to; \<^verbatim>\<open>video\<close> is known to be non-null where
  \<^verbatim>\<open>predict\<close> is defined. An exception leaves \<^verbatim>\<open>predict\<close> before it reschedules itself.
\<close>

definition predict :: "bool \<Rightarrow> VideoFrame \<Rightarrow> AppState \<Rightarrow> js_error + AppState" where
  "predict handLandmarker video s =
    (if handLandmarker \<and> currentTime video \<noteq> lastVideoTime s then
       (let s1 = s\<lparr>lastVideoTime := currentTime video, detectCalls := Suc (detectCalls s)\<rparr>;
            results = detection video
        in if length (landmarks results) > 0 then
             (case arrayAt (landmarks results) 0 of
                None \<Rightarrow> Inl TypeError
              | Some hand \<Rightarrow>
                 (case arrayAt hand 9 of
                    None \<Rightarrow> Inl TypeError
                  | Some p \<Rightarrow>
                     (let x = lx p; y = ly p;
                          rotY = (x - 0.5) * pi * 4;
                          rotX = (y - 0.5) * pi * 2
                      in Inr (s1\<lparr>targetRotation := (rotX, rotY, 0)\<rparr>))))
           else Inr s1)
     else Inr s)"

text \<open>
  The loop \<^verbatim>\<open>requestAnimationFrame(predict)\<close> over the frames the successive invocations
  find; it ends at the first exception.
\<close>

fun predictLoop :: "bool \<Rightarrow> VideoFrame list \<Rightarrow> AppState \<Rightarrow> js_error + AppState" where
  "predictLoop handLandmarker [] s = Inr s"
| "predictLoop handLandmarker (video # rest) s =
     (case predict handLandmarker video s of
        Inl e \<Rightarrow> Inl e
      | Inr s' \<Rightarrow> predictLoop handLandmarker rest s')"

section \<open>Smoothing: the \<^verbatim>\<open>useFrame\<close> callback of \<^verbatim>\<open>ArtifactModel.tsx\<close>\<close>

text \<open>
  \<^verbatim>\<open>THREE.MathUtils.lerp(x, y, t)\<close>, which is \<^verbatim>\<open>(1 - t) * x + t * y\<close>: a subtraction, two
  products and a sum, each one rounded.
\<close>

definition lerp :: "real \<Rightarrow> real \<Rightarrow> real \<Rightarrow> real" where
  "lerp x y t = roundToDouble (roundToDouble (roundToDouble (1 - t) * x) + roundToDouble (t * y))"

text \<open>The wrapper \<^verbatim>\<open>group\<close>: the two fields of the \<^verbatim>\<open>THREE.Group\<close> the callback writes to.\<close>

record Group =
  groupRotation :: Vector3
  groupPosition :: Vector3

text \<open>
  The refs of the component: \<^verbatim>\<open>groupRef.current\<close> (\<^verbatim>\<open>null\<close> until the group is mounted)
  and \<^verbatim>\<open>currentRotation.current\<close>.
\<close>

record ModelRefs =
  groupRef :: "Group option"
  currentRotation :: "real \<times> real \<times> real"

definition initialRefs :: ModelRefs where
  "initialRefs = \<lparr>groupRef = None, currentRotation = (0, 0, 0)\<rparr>"

text \<open>A freshly created \<^verbatim>\<open>THREE.Group\<close>, as mounting the JSX \<^verbatim>\<open>group\<close> element makes it.\<close>

definition newGroup :: Group where
  "newGroup = \<lparr>groupRotation = Vector3 0 0 0, groupPosition = Vector3 0 0 0\<rparr>"

text \<open>
  One render tick: \<open>externalRotation\<close> is the prop, \<open>delta\<close> the elapsed seconds and \<open>now\<close>
  the value of \<^verbatim>\<open>Date.now()\<close>.
\<close>

text \<open>
  The smoothing speed \<^verbatim>\<open>5 * delta\<close> is a rounded product. The idle animation of
  \<^verbatim>\<open>position.y\<close> is written with the exact sine: no statement below depends on its value.
\<close>

definition useFrame :: "real \<times> real \<times> real \<Rightarrow> real \<Rightarrow> real \<Rightarrow> ModelRefs \<Rightarrow> ModelRefs" where
  "useFrame externalRotation delta now refs =
    (case groupRef refs of
       None \<Rightarrow> refs
     | Some g \<Rightarrow>
        (let smoothingSpeed = roundToDouble (5 * delta);
             (c0, c1, c2) = currentRotation refs;
             (e0, e1, e2) = externalRotation;
             c0' = lerp c0 e0 smoothingSpeed;
             c1' = lerp c1 e1 smoothingSpeed;
             g1 = g\<lparr>groupRotation := Vector3 c0' c1' (vz (groupRotation g))\<rparr>;
             g2 = g1\<lparr>groupPosition :=
                    Vector3 (vx (groupPosition g1)) (sin (now * 0.001) * 0.1) (vz (groupPosition g1))\<rparr>
         in refs\<lparr>groupRef := Some g2, currentRotation := (c0', c1', c2)\<rparr>))"

text \<open>Successive render ticks against a fixed target, each with its \<open>(delta, now)\<close>.\<close>

fun renderLoop :: "real \<times> real \<times> real \<Rightarrow> (real \<times> real) list \<Rightarrow> ModelRefs \<Rightarrow> ModelRefs" where
  "renderLoop externalRotation [] refs = refs"
| "renderLoop externalRotation ((delta, now) # ticks) refs =
     renderLoop externalRotation ticks (useFrame externalRotation delta now refs)"

section \<open>The scene graph of three.js, as \<^verbatim>\<open>ArtifactModel.tsx\<close> uses it\<close>

text \<open>
  The functions of this section are those of the three.js library that the effect calls,
  written from the library's documented behaviour and named as there.

  A \<^verbatim>\<open>THREE.Matrix4\<close> is kept as the map it is on points (\<^verbatim>\<open>v.applyMatrix4(m)\<close>);
  \<^verbatim>\<open>multiplyMatrices(a, b)\<close> is then \<open>\<lambda>v. a (b v)\<close>.
\<close>

type_synonym Matrix4 = "Vector3 \<Rightarrow> Vector3"

text \<open>The rotation matrix of Euler angles in the default order XYZ, applied to a point.\<close>

definition makeRotationFromEuler :: "Vector3 \<Rightarrow> Matrix4" where
  "makeRotationFromEuler r v =
    (let a = cos (vx r); b = sin (vx r);
         c = cos (vy r); d = sin (vy r);
         e = cos (vz r); f = sin (vz r)
     in Vector3
          (c * e * vx v - c * f * vy v + d * vz v)
          ((a * f + b * e * d) * vx v + (a * e - b * f * d) * vy v - b * c * vz v)
          ((b * f - a * e * d) * vx v + (b * e + a * f * d) * vy v + a * c * vz v))"

text \<open>
  \<^verbatim>\<open>matrix.compose(position, quaternion, scale)\<close>, the local matrix of an object: scale,
  then rotate, then translate. The quaternion of an \<^verbatim>\<open>Object3D\<close> is kept equal to its Euler
  \<^verbatim>\<open>rotation\<close>.
\<close>

definition compose :: "Vector3 \<Rightarrow> Vector3 \<Rightarrow> Vector3 \<Rightarrow> Matrix4" where
  "compose p r s v =
     addVectors (makeRotationFromEuler r (Vector3 (vx s * vx v) (vy s * vy v) (vz s * vz v))) p"

text \<open>
  \<^verbatim>\<open>THREE.Box3\<close>. \<open>EmptyBox\<close> is the box \<^verbatim>\<open>new THREE.Box3()\<close> and \<^verbatim>\<open>makeEmpty()\<close> give,
  whose \<^verbatim>\<open>min\<close> is \<open>+\<infinity>\<close> and whose \<^verbatim>\<open>max\<close> is \<open>-\<infinity>\<close> on every axis; the reals have no
  infinity, so it is a value of its own.
\<close>

datatype Box3 = EmptyBox | Box3 (bmin: Vector3) (bmax: Vector3)

fun isEmpty :: "Box3 \<Rightarrow> bool" where
  "isEmpty EmptyBox = True"
| "isEmpty (Box3 mn mx) = (vx mx < vx mn \<or> vy mx < vy mn \<or> vz mx < vz mn)"

fun expandByPoint :: "Box3 \<Rightarrow> Vector3 \<Rightarrow> Box3" where
  "expandByPoint EmptyBox p = Box3 p p"
| "expandByPoint (Box3 mn mx) p = Box3 (minV mn p) (maxV mx p)"

definition setFromPoints :: "Vector3 list \<Rightarrow> Box3" where
  "setFromPoints points = foldl expandByPoint EmptyBox points"

fun union :: "Box3 \<Rightarrow> Box3 \<Rightarrow> Box3" where
  "union b EmptyBox = b"
| "union EmptyBox (Box3 mn mx) = Box3 mn mx"
| "union (Box3 mn mx) (Box3 mn' mx') = Box3 (minV mn mn') (maxV mx mx')"

text \<open>\<^verbatim>\<open>box.applyMatrix4(m)\<close>: an empty box is returned as it is; otherwise the box of the
  eight transformed corners.\<close>

definition applyMatrix4 :: "Box3 \<Rightarrow> Matrix4 \<Rightarrow> Box3" where
  "applyMatrix4 b m =
    (if isEmpty b then b
     else (let mn = bmin b; mx = bmax b in
       setFromPoints
         [m (Vector3 (vx mn) (vy mn) (vz mn)), m (Vector3 (vx mn) (vy mn) (vz mx)),
          m (Vector3 (vx mn) (vy mx) (vz mn)), m (Vector3 (vx mn) (vy mx) (vz mx)),
          m (Vector3 (vx mx) (vy mn) (vz mn)), m (Vector3 (vx mx) (vy mn) (vz mx)),
          m (Vector3 (vx mx) (vy mx) (vz mn)), m (Vector3 (vx mx) (vy mx) (vz mx))]))"

text \<open>\<^verbatim>\<open>box.getCenter(target)\<close> and \<^verbatim>\<open>box.getSize(target)\<close>: zero for an empty box.\<close>

definition getCenter :: "Box3 \<Rightarrow> Vector3" where
  "getCenter b =
    (if isEmpty b then Vector3 0 0 0 else multiplyScalar (addVectors (bmin b) (bmax b)) 0.5)"

definition getSize :: "Box3 \<Rightarrow> Vector3" where
  "getSize b = (if isEmpty b then Vector3 0 0 0 else subVectors (bmax b) (bmin b))"

text \<open>
  A \<^verbatim>\<open>THREE.Material\<close>: the fields that the effect writes, and \<^verbatim>\<open>name\<close>, which stands
  for the fields that it only copies.
\<close>

datatype Blending =
  NoBlending | NormalBlending | AdditiveBlending | SubtractiveBlending | MultiplyBlending
  | CustomBlending

datatype Side = FrontSide | BackSide | DoubleSide

record Material =
  name :: string
  transparent :: bool
  opacity :: real
  blending :: Blending
  side :: Side
  needsUpdate :: bool

text \<open>
  Objects, materials and geometries are mutable and shared, so they live in a store and are
  named by their addresses. \<^verbatim>\<open>mesh.material\<close> is absent, one material or an array of
  materials.
\<close>

datatype MeshMaterial = NoMaterial | SingleMaterial nat | MaterialArray "nat list"

text \<open>
  A \<^verbatim>\<open>THREE.BufferGeometry\<close>: the points of its \<^verbatim>\<open>position\<close> attribute and its
  \<^verbatim>\<open>boundingBox\<close>, which is \<^verbatim>\<open>null\<close> (\<open>None\<close>) until it is computed or until a loader sets
  it from the bounds that the file declares.
\<close>

record Geometry =
  positions :: "Vector3 list"
  boundingBox :: "Box3 option"

text \<open>
  The fields of a \<^verbatim>\<open>THREE.Object3D\<close> that the effect reads or writes. \<open>isMesh\<close> is set on a
  \<^verbatim>\<open>THREE.Mesh\<close> only: a \<^verbatim>\<open>THREE.Points\<close> or a \<^verbatim>\<open>THREE.Line\<close> has a geometry and a
  material too, and is not a mesh. \<open>geometry\<close> is the address of the geometry, \<open>None\<close> for an
  object without geometry (a group, a bone).
\<close>

record Object3D =
  isMesh :: bool
  position :: Vector3
  rotation :: Vector3
  scale :: Vector3
  matrix :: Matrix4
  matrixWorld :: Matrix4
  castShadow :: bool
  receiveShadow :: bool
  material :: MeshMaterial
  geometry :: "nat option"

text \<open>
  The shape of a scene graph: the address of an object and the graphs of its
  \<^verbatim>\<open>children\<close>. The effect never changes the shape.
\<close>

datatype Node = Node (ref: nat) (children: "Node list")

text \<open>
  The store. \<open>nextObject\<close> and \<open>nextMaterial\<close> are the next free addresses: the objects
  and the materials that exist are those below them. The effect creates no geometry.
\<close>

record Heap =
  objects :: "nat \<Rightarrow> Object3D"
  nextObject :: nat
  materials :: "nat \<Rightarrow> Material"
  nextMaterial :: nat
  geometries :: "nat \<Rightarrow> Geometry"

text \<open>
  \<^verbatim>\<open>object.clone(true)\<close>: a new object with the fields of the source (its material and
  geometry shared with it), then the clones of the children, in order.
\<close>

fun cloneRecursive :: "Node \<Rightarrow> Heap \<Rightarrow> Node \<times> Heap"
  and cloneChildren :: "Node list \<Rightarrow> Heap \<Rightarrow> Node list \<times> Heap" where
  "cloneRecursive (Node r cs) h =
     (let r' = nextObject h;
          h1 = h\<lparr>objects := (objects h)(r' := objects h r), nextObject := Suc r'\<rparr>
      in case cloneChildren cs h1 of (cs', h2) \<Rightarrow> (Node r' cs', h2))"
| "cloneChildren [] h = ([], h)"
| "cloneChildren (c # cs) h =
     (case cloneRecursive c h of (c', h1) \<Rightarrow>
        case cloneChildren cs h1 of (cs', h2) \<Rightarrow> (c' # cs', h2))"

text \<open>\<^verbatim>\<open>object.traverse(callback)\<close>: the object first, then its children in order.\<close>

fun traverse :: "(Node \<Rightarrow> 's \<Rightarrow> 's) \<Rightarrow> Node \<Rightarrow> 's \<Rightarrow> 's"
  and traverseChildren :: "(Node \<Rightarrow> 's \<Rightarrow> 's) \<Rightarrow> Node list \<Rightarrow> 's \<Rightarrow> 's" where
  "traverse callback (Node r cs) s = traverseChildren callback cs (callback (Node r cs) s)"
| "traverseChildren callback [] s = s"
| "traverseChildren callback (c # cs) s = traverseChildren callback cs (traverse callback c s)"

text \<open>\<^verbatim>\<open>material.clone()\<close>: a new material with the fields of the source.\<close>

definition cloneMaterial :: "nat \<Rightarrow> Heap \<Rightarrow> nat \<times> Heap" where
  "cloneMaterial mat h =
     (let newMat = nextMaterial h
      in (newMat, h\<lparr>materials := (materials h)(newMat := materials h mat),
                     nextMaterial := Suc newMat\<rparr>))"

text \<open>A write to fields of the object at an address.\<close>

definition updateObject :: "nat \<Rightarrow> (Object3D \<Rightarrow> Object3D) \<Rightarrow> Heap \<Rightarrow> Heap" where
  "updateObject r f h = h\<lparr>objects := (objects h)(r := f (objects h r))\<rparr>"

text \<open>
  \<^verbatim>\<open>object.updateMatrixWorld(true)\<close>, with \<^verbatim>\<open>matrixAutoUpdate\<close> at its default: the local
  matrix is composed anew, the world matrix is the parent's world matrix times the local
  one (the local one for an object without parent), then the children are updated.
\<close>

fun updateMatrixWorld :: "Matrix4 option \<Rightarrow> Node \<Rightarrow> Heap \<Rightarrow> Heap"
  and updateChildrenMatrixWorld :: "Matrix4 \<Rightarrow> Node list \<Rightarrow> Heap \<Rightarrow> Heap" where
  "updateMatrixWorld parent (Node r cs) h =
     (let ob = objects h r;
          m = compose (position ob) (rotation ob) (scale ob);
          mw = (case parent of None \<Rightarrow> m | Some pw \<Rightarrow> (\<lambda>v. pw (m v)));
          h1 = updateObject r (\<lambda>ob. ob\<lparr>matrix := m, matrixWorld := mw\<rparr>) h
      in updateChildrenMatrixWorld mw cs h1)"
| "updateChildrenMatrixWorld pw [] h = h"
| "updateChildrenMatrixWorld pw (c # cs) h =
     updateChildrenMatrixWorld pw cs (updateMatrixWorld (Some pw) c h)"

text \<open>
  \<^verbatim>\<open>geometry.computeBoundingBox()\<close>: the box of the points of the \<^verbatim>\<open>position\<close> attribute
  (the empty box when there is none), stored in the geometry.
\<close>

definition computeBoundingBox :: "nat \<Rightarrow> Heap \<Rightarrow> Heap" where
  "computeBoundingBox g h =
     h\<lparr>geometries := (geometries h)
         (g := (geometries h g)\<lparr>boundingBox := Some (setFromPoints (positions (geometries h g)))\<rparr>)\<rparr>"

text \<open>
  \<^verbatim>\<open>box.expandByObject(object)\<close>: for an object with a geometry, the bounding box of the
  geometry is computed if it is \<^verbatim>\<open>null\<close>, and the box is united with it under the
  object's world matrix; then the same for every child, mesh or not. (Its first step,
  \<^verbatim>\<open>object.updateWorldMatrix(false, false)\<close>, recomputes the two matrices of that object
  from the fields \<^verbatim>\<open>updateMatrixWorld(true)\<close> has just used, and stores what is there.)
  The geometry is the one the source shares with its clone, so the computed bounding box
  is written to the source.
\<close>

fun expandByObject :: "Node \<Rightarrow> Box3 \<times> Heap \<Rightarrow> Box3 \<times> Heap"
  and expandByChildren :: "Node list \<Rightarrow> Box3 \<times> Heap \<Rightarrow> Box3 \<times> Heap" where
  "expandByObject (Node r cs) (box, h) =
     expandByChildren cs
       (case geometry (objects h r) of
          None \<Rightarrow> (box, h)
        | Some g \<Rightarrow>
           (let h1 = (if boundingBox (geometries h g) = None then computeBoundingBox g h else h)
            in case boundingBox (geometries h1 g) of
                 None \<Rightarrow> (box, h1)
               | Some bb \<Rightarrow> (union box (applyMatrix4 bb (matrixWorld (objects h1 r))), h1)))"
| "expandByChildren [] s = s"
| "expandByChildren (c # cs) s = expandByChildren cs (expandByObject c s)"

text \<open>\<^verbatim>\<open>box.setFromObject(object)\<close>: \<^verbatim>\<open>makeEmpty()\<close>, then \<^verbatim>\<open>expandByObject(object)\<close>.\<close>

definition setFromObject :: "Node \<Rightarrow> Heap \<Rightarrow> Box3 \<times> Heap" where
  "setFromObject object h = expandByObject object (EmptyBox, h)"

section \<open>Normalization: the \<^verbatim>\<open>useEffect\<close> of \<^verbatim>\<open>ArtifactModel.tsx\<close>\<close>

text \<open>\<^verbatim>\<open>applySettings\<close>: the clone of a material, made opaque, normally blended, double-sided.\<close>

definition applySettings :: "nat \<Rightarrow> Heap \<Rightarrow> nat \<times> Heap" where
  "applySettings mat h =
     (case cloneMaterial mat h of (newMat, h1) \<Rightarrow>
        (newMat, h1\<lparr>materials := (materials h1)(newMat := (materials h1 newMat)
           \<lparr>transparent := False, opacity := 1.0, blending := NormalBlending,
            side := DoubleSide, needsUpdate := True\<rparr>)\<rparr>))"

text \<open>\<^verbatim>\<open>mesh.material.map(applySettings)\<close>.\<close>

fun mapApplySettings :: "nat list \<Rightarrow> Heap \<Rightarrow> nat list \<times> Heap" where
  "mapApplySettings [] h = ([], h)"
| "mapApplySettings (mat # mats) h =
     (case applySettings mat h of (newMat, h1) \<Rightarrow>
        case mapApplySettings mats h1 of (newMats, h2) \<Rightarrow> (newMat # newMats, h2))"

text \<open>The callback of the first traversal (step 1, material setup).\<close>

definition materialSetup :: "Node \<Rightarrow> Heap \<Rightarrow> Heap" where
  "materialSetup child h =
    (if isMesh (objects h (ref child)) then
       (let mesh = ref child;
            h1 = updateObject mesh (\<lambda>ob. ob\<lparr>castShadow := True\<rparr>) h;
            h2 = updateObject mesh (\<lambda>ob. ob\<lparr>receiveShadow := True\<rparr>) h1
        in case material (objects h2 mesh) of
             NoMaterial \<Rightarrow> h2
           | MaterialArray mats \<Rightarrow>
               (case mapApplySettings mats h2 of (newMats, h3) \<Rightarrow>
                  updateObject mesh (\<lambda>ob. ob\<lparr>material := MaterialArray newMats\<rparr>) h3)
           | SingleMaterial mat \<Rightarrow>
               (case applySettings mat h2 of (newMat, h3) \<Rightarrow>
                  updateObject mesh (\<lambda>ob. ob\<lparr>material := SingleMaterial newMat\<rparr>) h3))
     else h)"

text \<open>The callback of the second traversal, on \<^verbatim>\<open>box\<close>, \<^verbatim>\<open>hasMeshes\<close> and the store.\<close>

definition expandMeshes :: "Node \<Rightarrow> Box3 \<times> bool \<times> Heap \<Rightarrow> Box3 \<times> bool \<times> Heap" where
  "expandMeshes child s =
     (case s of (box, hasMeshes, h) \<Rightarrow>
        if isMesh (objects h (ref child)) then
          (case expandByObject child (box, h) of (box', h') \<Rightarrow> (box', True, h'))
        else (box, hasMeshes, h))"

text \<open>The box of step 2: over the meshes, or over the whole graph when there is none.\<close>

definition computeBox :: "Node \<Rightarrow> Heap \<Rightarrow> Box3 \<times> Heap" where
  "computeBox clone h =
     (case traverse expandMeshes clone (EmptyBox, False, h) of (box, hasMeshes, h1) \<Rightarrow>
        if \<not> hasMeshes then setFromObject clone h1 else (box, h1))"

text \<open>\<^verbatim>\<open>a || b\<close> on numbers: \<open>a\<close> unless it is zero.\<close>

definition jsOr :: "real \<Rightarrow> real \<Rightarrow> real" where
  "jsOr a b = (if a \<noteq> 0 then a else b)"

definition targetSize :: real where
  "targetSize = 4.0"

text \<open>
  The effect up to the world matrices: the deep clone, the material setup, the reset of
  the root's transform and \<^verbatim>\<open>clone.updateMatrixWorld(true)\<close>.
\<close>

definition prepare :: "Node \<Rightarrow> Heap \<Rightarrow> Node \<times> Heap" where
  "prepare scene h =
     (case cloneRecursive scene h of (clone, h1) \<Rightarrow>
        (let h2 = traverse materialSetup clone h1;
             h3 = updateObject (ref clone) (\<lambda>ob. ob\<lparr>position := Vector3 0 0 0\<rparr>) h2;
             h4 = updateObject (ref clone) (\<lambda>ob. ob\<lparr>rotation := Vector3 0 0 0\<rparr>) h3;
             h5 = updateObject (ref clone) (\<lambda>ob. ob\<lparr>scale := Vector3 1 1 1\<rparr>) h4;
             h6 = updateMatrixWorld None clone h5
         in (clone, h6)))"

text \<open>The React state the effect sets.\<close>

record ModelState =
  processedScene :: "Node option"
  modelScale :: JSNumber

definition initialModel :: ModelState where
  "initialModel = \<lparr>processedScene = None, modelScale = Double 1\<rparr>"

text \<open>
  The whole effect, on the value of \<^verbatim>\<open>scene\<close> (\<open>None\<close> when it is not there yet): the box,
  its centre subtracted from the root's position, and the scale factor, published with the
  clone.
\<close>

definition sceneEffect :: "Node option \<Rightarrow> ModelState \<Rightarrow> Heap \<Rightarrow> ModelState \<times> Heap" where
  "sceneEffect scene st h =
    (case scene of
       None \<Rightarrow> (st, h)
     | Some sc \<Rightarrow>
        (case prepare sc h of (clone, h1) \<Rightarrow>
           (case computeBox clone h1 of (box, h2) \<Rightarrow>
              (let center = getCenter box;
                   h3 = updateObject (ref clone)
                          (\<lambda>ob. ob\<lparr>position := subVectors (position ob) center\<rparr>) h2;
                   size = getSize box;
                   maxDim = max (max (vx size) (vy size)) (vz size);
                   scaleFactor = jsDivide targetSize (jsOr maxDim 1)
               in (st\<lparr>modelScale := scaleFactor, processedScene := Some clone\<rparr>, h3)))))"

section \<open>Notions for the statements and their proofs\<close>

text \<open>The addresses of a graph, root first.\<close>

fun refsOf :: "Node \<Rightarrow> nat list" and refsOfList :: "Node list \<Rightarrow> nat list" where
  "refsOf (Node r cs) = r # refsOfList cs"
| "refsOfList [] = []"
| "refsOfList (c # cs) = refsOf c @ refsOfList cs"

text \<open>A graph whose objects all exist in the store.\<close>

definition allocated :: "Heap \<Rightarrow> Node \<Rightarrow> bool" where
  "allocated h scene \<longleftrightarrow> (\<forall>r \<in> set (refsOf scene). r < nextObject h)"

fun materialRefs :: "MeshMaterial \<Rightarrow> nat list" where
  "materialRefs NoMaterial = []"
| "materialRefs (SingleMaterial m) = [m]"
| "materialRefs (MaterialArray ms) = ms"

text \<open>The materials of a graph all exist in the store.\<close>

definition materialsAllocated :: "Heap \<Rightarrow> Node \<Rightarrow> bool" where
  "materialsAllocated h scene \<longleftrightarrow>
     (\<forall>r \<in> set (refsOf scene). \<forall>m \<in> set (materialRefs (material (objects h r))).
        m < nextMaterial h)"

text \<open>A bounding box as a loader computes it: the empty box or one with \<open>min \<le> max\<close>.\<close>

definition validBox :: "Box3 \<Rightarrow> bool" where
  "validBox b \<longleftrightarrow> b = EmptyBox \<or> \<not> isEmpty b"

text \<open>
  The bounding box that \<^verbatim>\<open>expandByObject\<close> reads for a geometry, the stored one or, when
  none is stored, the one computed from the points; and the one it reads for the object at
  an address.
\<close>

definition boxOf :: "Geometry \<Rightarrow> Box3" where
  "boxOf geom =
     (case boundingBox geom of Some bb \<Rightarrow> bb | None \<Rightarrow> setFromPoints (positions geom))"

definition geometryBox :: "Heap \<Rightarrow> nat \<Rightarrow> Box3 option" where
  "geometryBox h r = map_option (\<lambda>g. boxOf (geometries h g)) (geometry (objects h r))"



text \<open>
  The smallest axis-aligned box that holds given points, stated with minima and maxima:
  its \<open>min\<close> corner is the least coordinate on each axis, its \<open>max\<close> corner the greatest.
\<close>

definition boundsOfPoints :: "Vector3 list \<Rightarrow> Box3" where
  "boundsOfPoints ps =
     (if ps = [] then EmptyBox
      else Box3 (Vector3 (Min (vx ` set ps)) (Min (vy ` set ps)) (Min (vz ` set ps)))
                (Vector3 (Max (vx ` set ps)) (Max (vy ` set ps)) (Max (vz ` set ps))))"

text \<open>The eight corners of a box; the empty box has none.\<close>

fun cornersOf :: "Box3 \<Rightarrow> Vector3 list" where
  "cornersOf EmptyBox = []"
| "cornersOf (Box3 mn mx) =
     [Vector3 (vx mn) (vy mn) (vz mn), Vector3 (vx mn) (vy mn) (vz mx),
      Vector3 (vx mn) (vy mx) (vz mn), Vector3 (vx mn) (vy mx) (vz mx),
      Vector3 (vx mx) (vy mn) (vz mn), Vector3 (vx mx) (vy mn) (vz mx),
      Vector3 (vx mx) (vy mx) (vz mn), Vector3 (vx mx) (vy mx) (vz mx)]"




text \<open>
  A material \<open>new\<close> is the copy of \<open>src\<close> with the settings forced: what the effect
  only copies is as in \<open>src\<close>, and it is opaque, normally blended, double-sided and flagged
  for update.
\<close>

definition forcedCopy :: "Material \<Rightarrow> Material \<Rightarrow> bool" where
  "forcedCopy src new \<longleftrightarrow>
     name new = name src \<and> transparent new = False \<and> opacity new = 1 \<and>
     blending new = NormalBlending \<and> side new = DoubleSide \<and> needsUpdate new = True"

text \<open>
  Between the store \<open>h\<close> before and the store \<open>h'\<close> after: the material at \<open>m'\<close> did not
  exist in \<open>h\<close> and is the forced copy of the material at \<open>m\<close>; and the materials of a
  mesh are, one for one and in order, such copies of the materials of its source.
\<close>

definition freshCopy :: "Heap \<Rightarrow> Heap \<Rightarrow> nat \<Rightarrow> nat \<Rightarrow> bool" where
  "freshCopy h h' m m' \<longleftrightarrow>
     nextMaterial h \<le> m' \<and> m' < nextMaterial h' \<and> forcedCopy (materials h m) (materials h' m')"

fun materialsSetUp :: "Heap \<Rightarrow> Heap \<Rightarrow> MeshMaterial \<Rightarrow> MeshMaterial \<Rightarrow> bool" where
  "materialsSetUp h h' NoMaterial NoMaterial = True"
| "materialsSetUp h h' (SingleMaterial m) (SingleMaterial m') = freshCopy h h' m m'"
| "materialsSetUp h h' (MaterialArray ms) (MaterialArray ms') = list_all2 (freshCopy h h') ms ms'"
| "materialsSetUp h h' _ _ = False"

text \<open>
  The object at \<open>r'\<close> in \<open>h'\<close> is the object at \<open>r\<close> in \<open>h\<close> after the material setup: a
  mesh casts and receives shadows and has forced copies of its materials; any other
  object has the shadow flags and the very materials it had.
\<close>

definition setUp :: "Heap \<Rightarrow> Heap \<Rightarrow> nat \<Rightarrow> nat \<Rightarrow> bool" where
  "setUp h h' r r' \<longleftrightarrow>
     isMesh (objects h' r') = isMesh (objects h r) \<and>
     (if isMesh (objects h r) then
        castShadow (objects h' r') \<and> receiveShadow (objects h' r') \<and>
        materialsSetUp h h' (material (objects h r)) (material (objects h' r'))
      else
        castShadow (objects h' r') = castShadow (objects h r) \<and>
        receiveShadow (objects h' r') = receiveShadow (objects h r) \<and>
        material (objects h' r') = material (objects h r))"

text \<open>
  A geometry \<open>after\<close> differs from \<open>before\<close> at most by its bounding box, which was
  \<^verbatim>\<open>null\<close> and is now the box of its points.
\<close>

definition boxCached :: "Geometry \<Rightarrow> Geometry \<Rightarrow> bool" where
  "boxCached before after \<longleftrightarrow>
     positions after = positions before \<and>
     (boundingBox after = boundingBox before \<or>
      boundingBox before = None \<and> boundingBox after = Some (setFromPoints (positions before)))"

text \<open>A step that changes nothing but such bounding boxes.\<close>

definition cachesFilled :: "Heap \<Rightarrow> Heap \<Rightarrow> bool" where
  "cachesFilled h h' \<longleftrightarrow>
     objects h' = objects h \<and> nextObject h' = nextObject h \<and> materials h' = materials h \<and>
     nextMaterial h' = nextMaterial h \<and>
     (\<forall>g. boxCached (geometries h g) (geometries h' g))"

text \<open>Two objects with the same geometric fields, and with the same material fields.\<close>

definition geoSame :: "Object3D \<Rightarrow> Object3D \<Rightarrow> bool" where
  "geoSame ob ob' \<longleftrightarrow>
     isMesh ob' = isMesh ob \<and> geometry ob' = geometry ob \<and> position ob' = position ob \<and>
     rotation ob' = rotation ob \<and> scale ob' = scale ob"

definition matSame :: "Object3D \<Rightarrow> Object3D \<Rightarrow> bool" where
  "matSame ob ob' \<longleftrightarrow>
     isMesh ob' = isMesh ob \<and> castShadow ob' = castShadow ob \<and>
     receiveShadow ob' = receiveShadow ob \<and> material ob' = material ob"

text \<open>What a step may change: objects at the addresses \<open>A\<close> only, and never their geometric
  fields; no material below \<open>k\<close>; no geometry.\<close>

definition preserved :: "nat set \<Rightarrow> nat \<Rightarrow> Heap \<Rightarrow> Heap \<Rightarrow> bool" where
  "preserved A k h h' \<longleftrightarrow>
     nextObject h' = nextObject h \<and> geometries h' = geometries h \<and>
     (\<forall>r. r \<notin> A \<longrightarrow> objects h' r = objects h r) \<and>
     (\<forall>r. geoSame (objects h r) (objects h' r)) \<and>
     (\<forall>m < k. materials h' m = materials h m) \<and>
     k \<le> nextMaterial h \<and> nextMaterial h \<le> nextMaterial h'"

definition unchangedButMatrices :: "nat set \<Rightarrow> Heap \<Rightarrow> Heap \<Rightarrow> bool" where
  "unchangedButMatrices A h h' \<longleftrightarrow>
     nextObject h' = nextObject h \<and> materials h' = materials h \<and> geometries h' = geometries h \<and>
     nextMaterial h' = nextMaterial h \<and>
     (\<forall>r. geoSame (objects h r) (objects h' r) \<and> matSame (objects h r) (objects h' r)) \<and>
     (\<forall>r. r \<notin> A \<longrightarrow> objects h' r = objects h r)"

text \<open>The three writes that reset the root.\<close>

definition resetRoot :: "Node \<Rightarrow> Heap \<Rightarrow> Heap" where
  "resetRoot clone h2 =
     updateObject (ref clone) (\<lambda>ob. ob\<lparr>scale := Vector3 1 1 1\<rparr>)
       (updateObject (ref clone) (\<lambda>ob. ob\<lparr>rotation := Vector3 0 0 0\<rparr>)
         (updateObject (ref clone) (\<lambda>ob. ob\<lparr>position := Vector3 0 0 0\<rparr>) h2))"

text \<open>
  The geometric content of a graph, read off the store: for each object whether it is a
  mesh, the bounding box read for it and its local matrix. The box of a graph is a function
  of it.
\<close>

datatype GNode =
  GNode (gIsMesh: bool) (gGeometry: "Box3 option") (gMatrix: Matrix4) (gChildren: "GNode list")

fun gview :: "Heap \<Rightarrow> Node \<Rightarrow> GNode" and gviewList :: "Heap \<Rightarrow> Node list \<Rightarrow> GNode list" where
  "gview h (Node r cs) =
     GNode (isMesh (objects h r)) (geometryBox h r)
       (compose (position (objects h r)) (rotation (objects h r)) (scale (objects h r)))
       (gviewList h cs)"
| "gviewList h [] = []"
| "gviewList h (c # cs) = gview h c # gviewList h cs"

definition worldOf :: "Matrix4 option \<Rightarrow> Matrix4 \<Rightarrow> Matrix4" where
  "worldOf parent m = (case parent of None \<Rightarrow> m | Some pw \<Rightarrow> (\<lambda>v. pw (m v)))"

text \<open>The world matrices in the store are those of the graph under the parent matrix.\<close>

fun stored :: "Heap \<Rightarrow> Matrix4 option \<Rightarrow> Node \<Rightarrow> bool"
  and storedList :: "Heap \<Rightarrow> Matrix4 \<Rightarrow> Node list \<Rightarrow> bool" where
  "stored h parent (Node r cs) =
     (matrixWorld (objects h r)
        = worldOf parent (compose (position (objects h r)) (rotation (objects h r)) (scale (objects h r)))
      \<and> storedList h
          (worldOf parent (compose (position (objects h r)) (rotation (objects h r)) (scale (objects h r))))
          cs)"
| "storedList h pw [] = True"
| "storedList h pw (c # cs) = (stored h (Some pw) c \<and> storedList h pw cs)"

text \<open>The box computations on the geometric content.\<close>

fun expandG :: "Matrix4 option \<Rightarrow> GNode \<Rightarrow> Box3 \<Rightarrow> Box3"
  and expandGList :: "Matrix4 \<Rightarrow> GNode list \<Rightarrow> Box3 \<Rightarrow> Box3" where
  "expandG parent (GNode im g m cs) box =
     expandGList (worldOf parent m) cs
       (case g of None \<Rightarrow> box | Some bb \<Rightarrow> union box (applyMatrix4 bb (worldOf parent m)))"
| "expandGList pw [] box = box"
| "expandGList pw (c # cs) box = expandGList pw cs (expandG (Some pw) c box)"

fun meshesG :: "Matrix4 option \<Rightarrow> GNode \<Rightarrow> Box3 \<times> bool \<Rightarrow> Box3 \<times> bool"
  and meshesGList :: "Matrix4 \<Rightarrow> GNode list \<Rightarrow> Box3 \<times> bool \<Rightarrow> Box3 \<times> bool" where
  "meshesG parent (GNode im g m cs) s =
     meshesGList (worldOf parent m) cs
       (if im then (expandG parent (GNode im g m cs) (fst s), True) else s)"
| "meshesGList pw [] s = s"
| "meshesGList pw (c # cs) s = meshesGList pw cs (meshesG (Some pw) c s)"

definition computeBoxG :: "GNode \<Rightarrow> Box3" where
  "computeBoxG g =
     (case meshesG None g (EmptyBox, False) of (box, hasMeshes) \<Rightarrow>
        if \<not> hasMeshes then expandG None g EmptyBox else box)"

fun validG :: "GNode \<Rightarrow> bool" and validGList :: "GNode list \<Rightarrow> bool" where
  "validG (GNode im g m cs) = ((case g of None \<Rightarrow> True | Some bb \<Rightarrow> validBox bb) \<and> validGList cs)"
| "validGList [] = True"
| "validGList (c # cs) = (validG c \<and> validGList cs)"

fun anyMeshG :: "GNode \<Rightarrow> bool" and anyMeshGList :: "GNode list \<Rightarrow> bool" where
  "anyMeshG (GNode im g m cs) = (im \<or> anyMeshGList cs)"
| "anyMeshGList [] = False"
| "anyMeshGList (c # cs) = (anyMeshG c \<or> anyMeshGList cs)"

fun meshesOnlyG :: "GNode \<Rightarrow> bool" and meshesOnlyGList :: "GNode list \<Rightarrow> bool" where
  "meshesOnlyG (GNode im g m cs) = ((g \<noteq> None \<longrightarrow> im) \<and> meshesOnlyGList cs)"
| "meshesOnlyGList [] = True"
| "meshesOnlyGList (c # cs) = (meshesOnlyG c \<and> meshesOnlyGList cs)"

text \<open>The corners on the geometric content, and those that the second traversal visits.\<close>

definition cornersG :: "Matrix4 \<Rightarrow> Box3 option \<Rightarrow> Vector3 list" where
  "cornersG w g = (case g of None \<Rightarrow> [] | Some bb \<Rightarrow> map w (cornersOf bb))"




fun resetRootG :: "GNode \<Rightarrow> GNode" where
  "resetRootG (GNode im g m cs) = GNode im g id cs"

text \<open>The translation by \<open>t\<close>, of points and of boxes.\<close>

definition translate :: "Vector3 \<Rightarrow> Matrix4" where
  "translate t v = addVectors v t"

fun translateBox :: "Vector3 \<Rightarrow> Box3 \<Rightarrow> Box3" where
  "translateBox t EmptyBox = EmptyBox"
| "translateBox t (Box3 mn mx) = Box3 (addVectors mn t) (addVectors mx t)"

text \<open>The geometric content with the root displaced by \<open>t\<close>, unrotated and unscaled.\<close>

fun moveRootG :: "Vector3 \<Rightarrow> GNode \<Rightarrow> GNode" where
  "moveRootG t (GNode im g m cs) = GNode im g (translate t) cs"

section \<open>Sample inputs\<close>

text \<open>A detected hand of 21 landmarks whose landmark 9 is \<open>p\<close>, and a frame holding given hands.\<close>

definition exampleHand :: "HandLandmark \<Rightarrow> HandLandmark list" where
  "exampleHand p = replicate 9 (HandLandmark 0 0 0) @ p # replicate 11 (HandLandmark 0 0 0)"

definition exampleFrame :: "real \<Rightarrow> HandLandmark list list \<Rightarrow> VideoFrame" where
  "exampleFrame t hands =
     \<lparr>currentTime = t, detection = \<lparr>landmarks = hands, worldLandmarks = hands\<rparr>\<rparr>"

text \<open>
  A scene of a scaled, displaced group holding one mesh with a translucent, additive,
  front-sided material, whose geometry has its bounding box; the same with a geometry whose
  bounding box is \<^verbatim>\<open>null\<close>; and a store holding a lone empty group.
\<close>

definition exObject :: Object3D where
  "exObject = \<lparr>isMesh = False, position = Vector3 0 0 0, rotation = Vector3 0 0 0,
     scale = Vector3 1 1 1, matrix = id, matrixWorld = id, castShadow = False,
     receiveShadow = False, material = NoMaterial, geometry = None\<rparr>"

definition exMaterial :: Material where
  "exMaterial = \<lparr>name = ''glass'', transparent = True, opacity = 0.5,
     blending = AdditiveBlending, side = FrontSide, needsUpdate = False\<rparr>"

definition exGeometry :: Geometry where
  "exGeometry = \<lparr>positions = [Vector3 0 0 0, Vector3 2 4 6, Vector3 1 1 1],
     boundingBox = Some (Box3 (Vector3 0 0 0) (Vector3 2 4 6))\<rparr>"

definition exHeap :: Heap where
  "exHeap = \<lparr>objects = (\<lambda>_. exObject)
       (0 := exObject\<lparr>position := Vector3 5 5 5, scale := Vector3 2 2 2\<rparr>,
        1 := exObject\<lparr>isMesh := True, position := Vector3 1 0 0, material := SingleMaterial 0,
               geometry := Some 0\<rparr>),
     nextObject = 2,
     materials = (\<lambda>_. exMaterial),
     nextMaterial = 1,
     geometries = (\<lambda>_. exGeometry)\<rparr>"

definition exScene :: Node where
  "exScene = Node 0 [Node 1 []]"

definition exUncachedHeap :: Heap where
  "exUncachedHeap = exHeap\<lparr>geometries := (\<lambda>_. exGeometry\<lparr>boundingBox := None\<rparr>)\<rparr>"

definition exGroupHeap :: Heap where
  "exGroupHeap = \<lparr>objects = (\<lambda>_. exObject), nextObject = 1, materials = (\<lambda>_. exMaterial),
     nextMaterial = 0, geometries = (\<lambda>_. exGeometry)\<rparr>"

text \<open>
  A scene with points: a group holding a mesh, which holds a \<^verbatim>\<open>THREE.Points\<close> displaced
  by 10 along X, and a second \<^verbatim>\<open>THREE.Points\<close> displaced by 20 along Y; all three with
  the geometry and the material above.
\<close>

definition exPointsHeap :: Heap where
  "exPointsHeap = \<lparr>objects = (\<lambda>_. exObject)
       (1 := exObject\<lparr>isMesh := True, material := SingleMaterial 0, geometry := Some 0\<rparr>,
        2 := exObject\<lparr>position := Vector3 10 0 0, material := SingleMaterial 0,
               geometry := Some 0\<rparr>,
        3 := exObject\<lparr>position := Vector3 0 20 0, material := SingleMaterial 0,
               geometry := Some 0\<rparr>),
     nextObject = 4,
     materials = (\<lambda>_. exMaterial),
     nextMaterial = 1,
     geometries = (\<lambda>_. exGeometry)\<rparr>"

definition exPointsScene :: Node where
  "exPointsScene = Node 0 [Node 1 [Node 2 []], Node 3 []]"

text \<open>Its copy, the store once the copy is prepared, and the store after the effect.\<close>

definition exPointsClone :: Node where
  "exPointsClone = Node 4 [Node 5 [Node 6 []], Node 7 []]"


definition exPointsAfter :: Heap where
  "exPointsAfter = snd (sceneEffect (Some exPointsScene) initialModel exPointsHeap)"

section \<open>Properties of the detection loop\<close>

lemma arrayAt_exampleHand: "arrayAt (exampleHand p) 9 = Some p"
  by (simp add: arrayAt_def exampleHand_def nth_append)

lemma predict_no_hands:
  "landmarks (detection video) = [] \<Longrightarrow>
   \<exists>s'. predict hl video s = Inr s' \<and> targetRotation s' = targetRotation s"
  by (simp add: predict_def Let_def)

lemma predict_z:
  "predict hl video s = Inr s' \<Longrightarrow>
     targetRotation s' = targetRotation s \<or> snd (snd (targetRotation s')) = 0"
  by (auto simp: predict_def Let_def split: if_splits option.splits)

lemma predictLoop_z:
  "predictLoop hl frames s = Inr s' \<Longrightarrow> snd (snd (targetRotation s)) = 0 \<Longrightarrow>
     snd (snd (targetRotation s')) = 0"
proof (induction frames arbitrary: s)
  case Nil
  then show ?case by simp
next
  case (Cons v frames)
  then obtain s1 where s1: "predict hl v s = Inr s1" "predictLoop hl frames s1 = Inr s'"
    by (auto split: sum.splits)
  with predict_z [OF s1(1)] Cons.prems have "snd (snd (targetRotation s1)) = 0" by auto
  with Cons.IH s1 show ?case by blast
qed

text \<open>
  C5. In a frame that is processed (the detector is there, the timestamp is new) and in
  which at least one hand is detected, the target rotation written from landmark 9
  \<open>p\<close> of the first hand is \<open>((y - 0.5) * pi * 2, (x - 0.5) * pi * 4, 0)\<close>; so
  \<open>(0.5, 0.5)\<close> gives \<open>(0, 0, 0)\<close>, \<open>x = 1\<close> gives the Y rotation \<open>2 * pi\<close>, \<open>x = 0\<close> gives
  \<open>- 2 * pi\<close>, \<open>y = 1\<close> gives the X rotation \<open>pi\<close> and \<open>y = 0\<close> gives \<open>- pi\<close>.
\<close>

theorem predict_target_rotation:
  assumes "handLandmarker"
    and "currentTime video \<noteq> lastVideoTime s"
    and "landmarks (detection video) = hand # others"
    and "arrayAt hand 9 = Some p"
  shows "\<exists>s'. predict handLandmarker video s = Inr s' \<and>
           targetRotation s' = ((ly p - 0.5) * pi * 2, (lx p - 0.5) * pi * 4, 0) \<and>
           (lx p = 0.5 \<and> ly p = 0.5 \<longrightarrow> targetRotation s' = (0, 0, 0)) \<and>
           (lx p = 1 \<longrightarrow> fst (snd (targetRotation s')) = 2 * pi) \<and>
           (lx p = 0 \<longrightarrow> fst (snd (targetRotation s')) = - (2 * pi)) \<and>
           (ly p = 1 \<longrightarrow> fst (targetRotation s') = pi) \<and>
           (ly p = 0 \<longrightarrow> fst (targetRotation s') = - pi)"
  using assms by (simp add: predict_def Let_def arrayAt_def)

theorem predict_target_rotation_witness:
  "(\<exists>s'. predict True (exampleFrame 0 [exampleHand (HandLandmark (1/2) (1/2) 0)]) initialApp = Inr s'
       \<and> targetRotation s' = (0, 0, 0)) \<and>
   (\<exists>s'. predict True (exampleFrame 0 [exampleHand (HandLandmark 1 1 0)]) initialApp = Inr s'
       \<and> targetRotation s' = (pi, 2 * pi, 0)) \<and>
   (\<exists>s'. predict True (exampleFrame 0 [exampleHand (HandLandmark 0 0 0)]) initialApp = Inr s'
       \<and> targetRotation s' = (- pi, - (2 * pi), 0))"
  using
    predict_target_rotation [of True "exampleFrame 0 [exampleHand (HandLandmark (1/2) (1/2) 0)]"
      initialApp "exampleHand (HandLandmark (1/2) (1/2) 0)" "[]" "HandLandmark (1/2) (1/2) 0"]
    predict_target_rotation [of True "exampleFrame 0 [exampleHand (HandLandmark 1 1 0)]"
      initialApp "exampleHand (HandLandmark 1 1 0)" "[]" "HandLandmark 1 1 0"]
    predict_target_rotation [of True "exampleFrame 0 [exampleHand (HandLandmark 0 0 0)]"
      initialApp "exampleHand (HandLandmark 0 0 0)" "[]" "HandLandmark 0 0 0"]
  by (auto simp: arrayAt_exampleHand exampleFrame_def initialApp_def)

text \<open>
  C6. Over any number of consecutive invocations in which no hand is detected, from any
  state (so from the state a detection left), the loop goes on and the target rotation
  stays exactly what it was.
\<close>

theorem predictLoop_no_hands:
  assumes "\<forall>video \<in> set frames. landmarks (detection video) = []"
  shows "\<exists>s'. predictLoop handLandmarker frames s = Inr s' \<and>
           targetRotation s' = targetRotation s"
  using assms
proof (induction frames arbitrary: s)
  case Nil
  then show ?case by simp
next
  case (Cons video frames)
  from Cons.prems have "landmarks (detection video) = []" by simp
  then obtain s1 where s1: "predict handLandmarker video s = Inr s1"
    "targetRotation s1 = targetRotation s"
    using predict_no_hands by blast
  from Cons.prems have "\<forall>v \<in> set frames. landmarks (detection v) = []" by simp
  from Cons.IH [OF this, of s1] s1 show ?case by simp
qed

theorem predictLoop_no_hands_witness:
  "landmarks (detection (exampleFrame 1 [])) = [] \<and>
   landmarks (detection (exampleFrame 2 [])) = [] \<and>
   (\<exists>s'. predictLoop True [exampleFrame 1 [], exampleFrame 2 [], exampleFrame 2 []]
            \<lparr>targetRotation = (pi, 2 * pi, 0), lastVideoTime = 0, detectCalls = 1\<rparr> = Inr s' \<and>
         targetRotation s' = (pi, 2 * pi, 0))"
  using predictLoop_no_hands [of "[exampleFrame 1 [], exampleFrame 2 [], exampleFrame 2 []]" True
      "\<lparr>targetRotation = (pi, 2 * pi, 0), lastVideoTime = 0, detectCalls = 1\<rparr>"]
  by (simp add: exampleFrame_def)

text \<open>
  C7. When an invocation has returned, a second invocation that finds the same video
  timestamp changes nothing at all: the target rotation is the same, and so is the count
  of detector calls, whatever the detector would have returned.
\<close>

theorem predict_same_timestamp:
  assumes "predict handLandmarker video1 s = Inr s1"
    and "currentTime video2 = currentTime video1"
  shows "predict handLandmarker video2 s1 = Inr s1"
  using assms by (auto simp: predict_def Let_def split: if_splits option.splits)

theorem predict_same_timestamp_witness:
  "predict True (exampleFrame 1 [exampleHand (HandLandmark 1 1 0)]) initialApp
     = Inr \<lparr>targetRotation = (pi, 2 * pi, 0), lastVideoTime = 1, detectCalls = 1\<rparr> \<and>
   currentTime (exampleFrame 1 [exampleHand (HandLandmark 0 0 0)])
     = currentTime (exampleFrame 1 [exampleHand (HandLandmark 1 1 0)]) \<and>
   predict True (exampleFrame 1 [exampleHand (HandLandmark 0 0 0)])
       \<lparr>targetRotation = (pi, 2 * pi, 0), lastVideoTime = 1, detectCalls = 1\<rparr>
     = Inr \<lparr>targetRotation = (pi, 2 * pi, 0), lastVideoTime = 1, detectCalls = 1\<rparr>"
  using predict_same_timestamp [of True "exampleFrame 1 [exampleHand (HandLandmark 1 1 0)]"
      initialApp "\<lparr>targetRotation = (pi, 2 * pi, 0), lastVideoTime = 1, detectCalls = 1\<rparr>"
      "exampleFrame 1 [exampleHand (HandLandmark 0 0 0)]"]
  by (simp add: predict_def Let_def arrayAt_def exampleHand_def exampleFrame_def initialApp_def
      nth_append)

section \<open>Lemmas on the rounding\<close>

lemma roundHalfEven_err: "\<bar>of_int (roundHalfEven z) - z\<bar> \<le> 1 / 2"
  unfolding roundHalfEven_def Let_def by (auto simp: abs_le_iff)

lemma roundHalfEven_int [simp]: "roundHalfEven (of_int n) = n"
  by (simp add: roundHalfEven_def)

lemma roundHalfEven_nonneg: "0 \<le> z \<Longrightarrow> 0 \<le> roundHalfEven z"
  unfolding roundHalfEven_def Let_def by auto

lemma roundHalfEven_le_int:
  assumes "z \<le> of_int n"
  shows "roundHalfEven z \<le> n"
proof -
  have f: "\<lfloor>z\<rfloor> \<le> n" using assms by (simp add: floor_le_iff)
  have "\<lfloor>z\<rfloor> + 1 \<le> n" if "1 / 2 \<le> z - of_int \<lfloor>z\<rfloor>"
  proof -
    from that assms have "of_int \<lfloor>z\<rfloor> < (of_int n :: real)" by linarith
    then show ?thesis by simp
  qed
  with f show ?thesis unfolding roundHalfEven_def Let_def by auto
qed

lemma two_powr_floor_log:
  assumes "0 < x"
  shows "2 powr of_int \<lfloor>log 2 x\<rfloor> \<le> x" and "x < 2 powr (of_int \<lfloor>log 2 x\<rfloor> + 1)"
proof -
  have "2 powr of_int \<lfloor>log 2 x\<rfloor> \<le> 2 powr log 2 x"
    by (rule powr_mono) simp_all
  then show "2 powr of_int \<lfloor>log 2 x\<rfloor> \<le> x" using assms by simp
  have "log 2 x < of_int \<lfloor>log 2 x\<rfloor> + 1" by linarith
  then have "2 powr log 2 x < 2 powr (of_int \<lfloor>log 2 x\<rfloor> + 1)"
    by (rule powr_less_mono) simp
  then show "x < 2 powr (of_int \<lfloor>log 2 x\<rfloor> + 1)" using assms by simp
qed

text \<open>The rounding error: half a unit in the last place.\<close>

lemma roundToDouble_err:
  "\<bar>roundToDouble r - r\<bar> \<le> \<bar>r\<bar> / 2 ^ 53 + 1 / 2 ^ 1075"
proof (cases "r = 0")
  case True
  then show ?thesis by (simp add: roundToDouble_def)
next
  case False
  let ?E = "ulpExponent r"
  let ?P = "2 powr of_int ?E :: real"
  have P: "0 < ?P" by simp
  have "roundToDouble r - r = ?P * (of_int (roundHalfEven (r / ?P)) - r / ?P)"
    using False by (simp add: roundToDouble_def algebra_simps)
  then have "\<bar>roundToDouble r - r\<bar> = ?P * \<bar>of_int (roundHalfEven (r / ?P)) - r / ?P\<bar>"
    by (simp add: abs_mult)
  also have "\<dots> \<le> ?P * (1 / 2)"
    by (rule mult_left_mono [OF roundHalfEven_err]) simp
  finally have e: "\<bar>roundToDouble r - r\<bar> \<le> ?P / 2" by simp
  show ?thesis
  proof (cases "- 1022 \<le> \<lfloor>log 2 \<bar>r\<bar>\<rfloor>")
    case True
    then have E: "?E = \<lfloor>log 2 \<bar>r\<bar>\<rfloor> - 52" by (simp add: ulpExponent_def)
    have "?P = 2 powr of_int \<lfloor>log 2 \<bar>r\<bar>\<rfloor> * 2 powr (- 52)"
      unfolding E by (simp add: powr_diff powr_minus field_simps)
    also have "\<dots> \<le> \<bar>r\<bar> * 2 powr (- 52)"
      using two_powr_floor_log(1) [of "\<bar>r\<bar>"] False by (intro mult_right_mono) simp_all
    finally have "?P / 2 \<le> \<bar>r\<bar> / 2 ^ 53" by (simp add: powr_minus field_simps)
    with e show ?thesis by (smt (verit) divide_nonneg_nonneg zero_le_power)
  next
    case False
    then have E: "?E = - 1074" by (simp add: ulpExponent_def)
    have "?P / 2 = 1 / 2 ^ 1075" unfolding E by (simp add: powr_minus field_simps)
    with e show ?thesis by (smt (verit) divide_nonneg_nonneg abs_ge_zero zero_le_power)
  qed
qed

lemma ulpExponent_le:
  assumes "r \<noteq> 0" "\<bar>r\<bar> < 2 powr of_int (k + 53)" "- 1074 \<le> k"
  shows "ulpExponent r \<le> k"
proof -
  have "(2::real) powr of_int \<lfloor>log 2 \<bar>r\<bar>\<rfloor> \<le> \<bar>r\<bar>"
    using two_powr_floor_log(1) [of "\<bar>r\<bar>"] assms(1) by simp
  with assms(2) have "(2::real) powr of_int \<lfloor>log 2 \<bar>r\<bar>\<rfloor> < 2 powr of_int (k + 53)"
    by linarith
  then have "(of_int \<lfloor>log 2 \<bar>r\<bar>\<rfloor> :: real) < of_int (k + 53)"
    by simp
  then have "\<lfloor>log 2 \<bar>r\<bar>\<rfloor> < k + 53" by linarith
  with assms(3) show ?thesis by (simp add: ulpExponent_def)
qed

lemma grid_quotient:
  assumes "e \<le> k"
  shows "of_int m * 2 powr of_int k / 2 powr of_int e = (of_int (m * 2 ^ nat (k - e)) :: real)"
proof -
  have "(2::real) powr of_int k = 2 powr of_int (k - e) * 2 powr of_int e"
    by (simp add: powr_add [symmetric])
  moreover have "(2::real) powr of_int (k - e) = 2 ^ nat (k - e)"
    using assms by (simp add: powr_realpow [symmetric])
  ultimately show ?thesis by simp
qed

text \<open>A value on the grid of its own binade, or on a coarser one, is a double: it is not rounded.\<close>

lemma roundToDouble_exact:
  assumes "\<bar>m\<bar> < 2 ^ 53" "- 1074 \<le> k"
  shows "roundToDouble (of_int m * 2 powr of_int k) = of_int m * 2 powr of_int k"
proof (cases "m = 0")
  case True
  then show ?thesis by (simp add: roundToDouble_def)
next
  case False
  let ?r = "of_int m * 2 powr of_int k :: real"
  have nz: "?r \<noteq> 0" using False by simp
  have "\<bar>?r\<bar> = of_int \<bar>m\<bar> * 2 powr of_int k" by (simp add: abs_mult)
  also have "\<dots> < 2 ^ 53 * 2 powr of_int k"
  proof (rule mult_strict_right_mono)
    from assms(1) have "(of_int \<bar>m\<bar> :: real) < of_int (2 ^ 53)" by (simp only: of_int_less_iff)
    then show "(of_int \<bar>m\<bar> :: real) < 2 ^ 53" by simp
  qed simp
  also have "\<dots> = 2 powr of_int (k + 53)" by (simp add: powr_add powr_realpow [symmetric])
  finally have "\<bar>?r\<bar> < 2 powr of_int (k + 53)" .
  from ulpExponent_le [OF nz this assms(2)] have le: "ulpExponent ?r \<le> k" .
  let ?P = "2 powr of_int (ulpExponent ?r) :: real"
  let ?N = "m * 2 ^ nat (k - ulpExponent ?r)"
  have q: "?r / ?P = of_int ?N" by (rule grid_quotient [OF le])
  have "roundToDouble ?r = of_int (roundHalfEven (?r / ?P)) * ?P"
    using nz by (simp add: roundToDouble_def)
  also have "\<dots> = of_int ?N * ?P" by (simp only: q roundHalfEven_int)
  also have "\<dots> = ?r / ?P * ?P" by (simp only: q)
  also have "\<dots> = ?r" by simp
  finally show ?thesis .
qed

lemma roundToDouble_nonneg: "0 \<le> r \<Longrightarrow> 0 \<le> roundToDouble r"
  by (simp add: roundToDouble_def roundHalfEven_nonneg)

lemma roundToDouble_le_grid:
  assumes "r \<le> of_int m * 2 powr of_int k" "\<bar>r\<bar> < 2 powr of_int (k + 53)" "- 1074 \<le> k"
  shows "roundToDouble r \<le> of_int m * 2 powr of_int k"
proof (cases "r = 0")
  case True
  with assms(1) show ?thesis by (simp add: roundToDouble_def)
next
  case False
  let ?E = "ulpExponent r"
  let ?P = "2 powr of_int ?E :: real"
  from ulpExponent_le [OF False assms(2,3)] have le: "?E \<le> k" .
  have "r / ?P \<le> of_int m * 2 powr of_int k / ?P"
    using assms(1) by (simp add: divide_right_mono)
  then have "r / ?P \<le> of_int (m * 2 ^ nat (k - ?E))" by (simp only: grid_quotient [OF le])
  then have "roundHalfEven (r / ?P) \<le> m * 2 ^ nat (k - ?E)" by (rule roundHalfEven_le_int)
  then have "(of_int (roundHalfEven (r / ?P)) :: real) \<le> of_int (m * 2 ^ nat (k - ?E))"
    by (simp only: of_int_le_iff)
  then have "of_int (roundHalfEven (r / ?P)) * ?P \<le> of_int (m * 2 ^ nat (k - ?E)) * ?P"
    by (rule mult_right_mono) simp
  also have "of_int (m * 2 ^ nat (k - ?E)) * ?P = of_int m * 2 powr of_int k"
    by (simp only: grid_quotient [OF le, symmetric]) simp
  finally show ?thesis using False by (simp add: roundToDouble_def)
qed

section \<open>Properties of the smoothing\<close>

lemma useFrame_z:
  "snd (snd (currentRotation (useFrame ext delta now refs))) = snd (snd (currentRotation refs)) \<and>
   map_option (\<lambda>g. vz (groupRotation g)) (groupRef (useFrame ext delta now refs))
     = map_option (\<lambda>g. vz (groupRotation g)) (groupRef refs)"
  by (auto simp: useFrame_def Let_def split: option.splits prod.splits)

lemma renderLoop_z:
  "snd (snd (currentRotation (renderLoop ext ticks refs))) = snd (snd (currentRotation refs)) \<and>
   map_option (\<lambda>g. vz (groupRotation g)) (groupRef (renderLoop ext ticks refs))
     = map_option (\<lambda>g. vz (groupRotation g)) (groupRef refs)"
proof (induction ticks arbitrary: refs)
  case Nil
  then show ?case by simp
next
  case (Cons t ticks)
  obtain d n where t: "t = (d, n)" by (cases t)
  show ?case using Cons.IH [of "useFrame ext d n refs"] useFrame_z [of ext d n refs]
    by (simp add: t)
qed

lemma lerp_error_abstract:
  fixes rd :: "real \<Rightarrow> real" and u \<eta> :: real
  assumes rd: "\<And>r. \<bar>rd r - r\<bar> \<le> \<bar>r\<bar> * u + \<eta>"
    and e0: "0 \<le> \<eta>" and eu: "\<eta> \<le> u" and u2: "u \<le> 1 / 2"
    and s0: "0 \<le> s" and s2: "s \<le> 2"
  shows "\<bar>rd (rd (rd (1 - s) * c) + rd (s * e)) - ((1 - s) * c + s * e)\<bar>
           \<le> 8 * u * (\<bar>c\<bar> + \<bar>e\<bar>) + 4 * \<eta>"
proof -
  define a where "a = rd (1 - s)"
  define p where "p = rd (a * c)"
  define q where "q = rd (s * e)"
  define X where "X = \<bar>c\<bar>"
  define Y where "Y = \<bar>e\<bar>"
  have X0: "0 \<le> X" and Y0: "0 \<le> Y" by (simp_all add: X_def Y_def)
  have u0: "0 \<le> u" using e0 eu by simp
  have s1: "\<bar>1 - s\<bar> \<le> 1" using s0 s2 by (simp add: abs_le_iff)
  have "\<bar>1 - s\<bar> * u \<le> 1 * u" by (rule mult_right_mono [OF s1 u0])
  with rd [of "1 - s"] have ea: "\<bar>a - (1 - s)\<bar> \<le> u + \<eta>" by (simp add: a_def)
  have A: "\<bar>a\<bar> \<le> 2" using ea s1 eu u2 by linarith
  have "\<bar>a * c\<bar> = \<bar>a\<bar> * X" by (simp add: abs_mult X_def)
  also have "\<dots> \<le> 2 * X" by (rule mult_right_mono [OF A X0])
  finally have ac: "\<bar>a * c\<bar> \<le> 2 * X" .
  have "\<bar>a * c\<bar> * u \<le> 2 * X * u" by (rule mult_right_mono [OF ac u0])
  with rd [of "a * c"] have ep: "\<bar>p - a * c\<bar> \<le> 2 * (X * u) + \<eta>" by (simp add: p_def)
  have "\<bar>s * e\<bar> = \<bar>s\<bar> * Y" by (simp add: abs_mult Y_def)
  also have "\<dots> \<le> 2 * Y" using s0 s2 by (intro mult_right_mono Y0) simp
  finally have se: "\<bar>s * e\<bar> \<le> 2 * Y" .
  have "\<bar>s * e\<bar> * u \<le> 2 * Y * u" by (rule mult_right_mono [OF se u0])
  with rd [of "s * e"] have eq: "\<bar>q - s * e\<bar> \<le> 2 * (Y * u) + \<eta>" by (simp add: q_def)
  have Xu: "X * u \<le> X * (1 / 2)" by (rule mult_left_mono [OF u2 X0])
  have Yu: "Y * u \<le> Y * (1 / 2)" by (rule mult_left_mono [OF u2 Y0])
  have Xu0: "0 \<le> X * u" and Yu0: "0 \<le> Y * u" using X0 Y0 u0 by simp_all
  have P: "\<bar>p\<bar> \<le> 3 * X + \<eta>" using ep ac Xu by linarith
  have Q: "\<bar>q\<bar> \<le> 3 * Y + \<eta>" using eq se Yu by linarith
  have pq: "\<bar>p + q\<bar> \<le> 3 * X + 3 * Y + 2 * \<eta>" using P Q by linarith
  have "\<bar>p + q\<bar> * u \<le> (3 * X + 3 * Y + 2 * \<eta>) * u" by (rule mult_right_mono [OF pq u0])
  with rd [of "p + q"] have er: "\<bar>rd (p + q) - (p + q)\<bar> \<le> 3 * (X * u) + 3 * (Y * u) + 2 * (\<eta> * u) + \<eta>"
    by (simp add: algebra_simps)
  have "\<bar>(a - (1 - s)) * c\<bar> = \<bar>a - (1 - s)\<bar> * X" by (simp add: abs_mult X_def)
  also have "\<dots> \<le> (u + \<eta>) * X" by (rule mult_right_mono [OF ea X0])
  finally have ax: "\<bar>(a - (1 - s)) * c\<bar> \<le> X * u + \<eta> * X" by (simp add: algebra_simps)
  have eX: "\<eta> * X \<le> u * X" by (rule mult_right_mono [OF eu X0])
  have eU: "\<eta> * u \<le> \<eta> * (1 / 2)" by (rule mult_left_mono [OF u2 e0])
  have dec: "rd (p + q) - ((1 - s) * c + s * e)
      = (rd (p + q) - (p + q)) + (p - a * c) + (a - (1 - s)) * c + (q - s * e)"
    by (simp add: algebra_simps)
  have "\<bar>rd (p + q) - ((1 - s) * c + s * e)\<bar>
      \<le> \<bar>rd (p + q) - (p + q)\<bar> + \<bar>p - a * c\<bar> + \<bar>(a - (1 - s)) * c\<bar> + \<bar>q - s * e\<bar>"
    unfolding dec by linarith
  also have "\<dots> \<le> 8 * (X * u) + 8 * (Y * u) + 4 * \<eta>"
    using er ep ax eq eX eU Xu0 Yu0 by (simp add: algebra_simps)
  finally show ?thesis
    by (simp add: p_def q_def a_def X_def Y_def algebra_simps)
qed

lemma roundToDouble_dyadic:
  assumes "\<bar>m\<bar> < 2 ^ 53" "n \<le> 1074"
  shows "roundToDouble (of_int m / 2 ^ n) = of_int m / 2 ^ n"
proof -
  have "(2::real) powr of_int (- int n) = 1 / 2 ^ n"
    by (simp add: powr_minus powr_realpow field_simps)
  with roundToDouble_exact [of m "- int n"] assms show ?thesis by simp
qed

lemma roundToDouble_zero [simp]: "roundToDouble 0 = 0"
  by (simp add: roundToDouble_def)

lemma roundToDouble_int:
  assumes "\<bar>m\<bar> < 2 ^ 53"
  shows "roundToDouble (of_int m) = of_int m"
  using roundToDouble_dyadic [OF assms, of 0] by simp

lemma lerp_error:
  assumes "0 \<le> s" "s \<le> 2"
  shows "\<bar>lerp c e s - ((1 - s) * c + s * e)\<bar> \<le> (\<bar>c\<bar> + \<bar>e\<bar>) / 2 ^ 50 + 1 / 2 ^ 1073"
proof -
  have "\<bar>roundToDouble r - r\<bar> \<le> \<bar>r\<bar> * (1 / 2 ^ 53) + 1 / 2 ^ 1075" for r
    using roundToDouble_err [of r] by simp
  from lerp_error_abstract [of roundToDouble "1 / 2 ^ 53" "1 / 2 ^ 1075" s c e, OF this _ _ _ assms]
  show ?thesis by (simp add: lerp_def)
qed

lemma smoothingSpeed_range:
  assumes "0 < delta" "delta < 2 / 5"
  shows "0 \<le> roundToDouble (5 * delta)" "roundToDouble (5 * delta) \<le> 2"
proof -
  show "0 \<le> roundToDouble (5 * delta)" using assms by (intro roundToDouble_nonneg) simp
  have "roundToDouble (5 * delta) \<le> of_int 1 * 2 powr of_int 1"
    using assms by (intro roundToDouble_le_grid) (simp_all add: powr_add)
  then show "roundToDouble (5 * delta) \<le> 2" by simp
qed

lemma smoothingSpeed_le_one:
  assumes "0 < delta" "delta \<le> 1 / 5"
  shows "roundToDouble (5 * delta) \<le> 1"
proof -
  have "roundToDouble (5 * delta) \<le> of_int 1 * 2 powr of_int 0"
    using assms by (intro roundToDouble_le_grid) (simp_all add: powr_add)
  then show ?thesis by simp
qed

lemma exact_lerp_dist:
  fixes s c e :: real
  shows "\<bar>((1 - s) * c + s * e) - e\<bar> = \<bar>1 - s\<bar> * \<bar>c - e\<bar>"
proof -
  have "((1 - s) * c + s * e) - e = (1 - s) * (c - e)" by (simp add: algebra_simps)
  then show ?thesis by (simp add: abs_mult)
qed

lemma exact_lerp_between:
  fixes t c e :: real
  assumes "0 \<le> t" "t \<le> 1"
  shows "min c e \<le> (1 - t) * c + t * e \<and> (1 - t) * c + t * e \<le> max c e"
proof -
  let ?l = "(1 - t) * c + t * e"
  have eq1: "?l = c + t * (e - c)" by (simp add: algebra_simps)
  have eq2: "?l = e - (1 - t) * (e - c)" by (simp add: algebra_simps)
  show ?thesis
  proof (cases "c \<le> e")
    case True
    with assms have "0 \<le> t * (e - c)" "0 \<le> (1 - t) * (e - c)" by simp_all
    then have "c \<le> ?l" "?l \<le> e"
      by (simp add: eq1, simp add: eq2)
    with True show ?thesis by (simp add: min_def max_def)
  next
    case False
    with assms have "t * (e - c) \<le> 0" "(1 - t) * (e - c) \<le> 0"
      by (simp_all add: mult_nonneg_nonpos)
    then have "?l \<le> c" "e \<le> ?l"
      by (simp add: eq1, simp add: eq2)
    with False show ?thesis by (simp add: min_def max_def)
  qed
qed

lemma lerp_progress:
  assumes "0 \<le> s" "s \<le> 2"
  shows "\<bar>lerp c e s - e\<bar> \<le> \<bar>1 - s\<bar> * \<bar>c - e\<bar> + ((\<bar>c\<bar> + \<bar>e\<bar>) / 2 ^ 50 + 1 / 2 ^ 1073)"
  using lerp_error [OF assms, of c e] exact_lerp_dist [of s c e] by linarith

lemma lerp_overshoot:
  assumes "0 \<le> s" "s \<le> 1"
  shows "min c e - ((\<bar>c\<bar> + \<bar>e\<bar>) / 2 ^ 50 + 1 / 2 ^ 1073) \<le> lerp c e s \<and>
         lerp c e s \<le> max c e + ((\<bar>c\<bar> + \<bar>e\<bar>) / 2 ^ 50 + 1 / 2 ^ 1073)"
proof -
  from assms have "s \<le> 2" by simp
  from lerp_error [OF assms(1) this, of c e] exact_lerp_between [OF assms, of c e]
  show ?thesis by linarith
qed

lemma ex_doubles:
  "roundToDouble (5 / 16) = 5 / 16" "roundToDouble (11 / 16) = 11 / 16"
  "roundToDouble (- (5 / 8)) = - (5 / 8)" "roundToDouble (5 / 2) = 5 / 2"
  "roundToDouble (- (3 / 2)) = - (3 / 2)"
  using roundToDouble_dyadic [of 5 4] roundToDouble_dyadic [of 11 4]
    roundToDouble_dyadic [of "- 5" 3] roundToDouble_dyadic [of 5 1] roundToDouble_dyadic [of "- 3" 1]
  by simp_all

lemma ex_tick:
  "currentRotation (useFrame (1, - 2, 0) (1 / 16) 0
      \<lparr>groupRef = Some newGroup, currentRotation = (0, 0, 0)\<rparr>) = (5 / 16, - (5 / 8), 0)"
  by (simp add: useFrame_def Let_def lerp_def ex_doubles)

text \<open>
  C3, as the code has it, in the arithmetic of doubles. For a tick of a mounted group with
  \<open>0 < delta < 2/5\<close> and rotations of magnitude at most \<open>2 ^ 1000\<close> (so that no
  intermediate result overflows): the smoothing speed \<open>s\<close>, the rounded \<open>5 * delta\<close>, lies
  in \<open>[0, 2]\<close> within one rounding of \<open>5 * delta\<close>; on the X and on the Y axis the new
  distance to the target is at most \<open>\<bar>1 - s\<bar>\<close> times the old one plus the rounding term
  \<open>(\<bar>current\<bar> + \<bar>target\<bar>) / 2 ^ 50 + 1 / 2 ^ 1073\<close>; and for \<open>delta \<le> 1/5\<close> the new
  value lies between the old value and the target, up to that rounding term. The distance
  need not decrease strictly: within the rounding term of the target the value may stall
  or step past it.
\<close>

theorem smoothing_progress:
  assumes "groupRef refs = Some g"
    and "currentRotation refs = (c0, c1, c2)"
    and "currentRotation (useFrame (e0, e1, e2) delta now refs) = (c0', c1', c2')"
    and "0 < delta" and "delta < 2 / 5"
    and "\<bar>c0\<bar> \<le> 2 ^ 1000" and "\<bar>c1\<bar> \<le> 2 ^ 1000"
    and "\<bar>e0\<bar> \<le> 2 ^ 1000" and "\<bar>e1\<bar> \<le> 2 ^ 1000"
  shows "0 \<le> roundToDouble (5 * delta) \<and> roundToDouble (5 * delta) \<le> 2 \<and>
         \<bar>roundToDouble (5 * delta) - 5 * delta\<bar> \<le> 5 * delta / 2 ^ 53 + 1 / 2 ^ 1075 \<and>
         \<bar>c0' - e0\<bar> \<le> \<bar>1 - roundToDouble (5 * delta)\<bar> * \<bar>c0 - e0\<bar>
                          + ((\<bar>c0\<bar> + \<bar>e0\<bar>) / 2 ^ 50 + 1 / 2 ^ 1073) \<and>
         \<bar>c1' - e1\<bar> \<le> \<bar>1 - roundToDouble (5 * delta)\<bar> * \<bar>c1 - e1\<bar>
                          + ((\<bar>c1\<bar> + \<bar>e1\<bar>) / 2 ^ 50 + 1 / 2 ^ 1073) \<and>
         (delta \<le> 1 / 5 \<longrightarrow>
            min c0 e0 - ((\<bar>c0\<bar> + \<bar>e0\<bar>) / 2 ^ 50 + 1 / 2 ^ 1073) \<le> c0' \<and>
            c0' \<le> max c0 e0 + ((\<bar>c0\<bar> + \<bar>e0\<bar>) / 2 ^ 50 + 1 / 2 ^ 1073) \<and>
            min c1 e1 - ((\<bar>c1\<bar> + \<bar>e1\<bar>) / 2 ^ 50 + 1 / 2 ^ 1073) \<le> c1' \<and>
            c1' \<le> max c1 e1 + ((\<bar>c1\<bar> + \<bar>e1\<bar>) / 2 ^ 50 + 1 / 2 ^ 1073))"
proof -
  let ?s = "roundToDouble (5 * delta)"
  from assms(1-3) have c: "c0' = lerp c0 e0 ?s" "c1' = lerp c1 e1 ?s"
    by (simp_all add: useFrame_def Let_def)
  note r = smoothingSpeed_range [OF assms(4,5)]
  have e: "\<bar>?s - 5 * delta\<bar> \<le> 5 * delta / 2 ^ 53 + 1 / 2 ^ 1075"
    using roundToDouble_err [of "5 * delta"] assms(4) by simp
  have o: "min c0 e0 - ((\<bar>c0\<bar> + \<bar>e0\<bar>) / 2 ^ 50 + 1 / 2 ^ 1073) \<le> c0' \<and>
            c0' \<le> max c0 e0 + ((\<bar>c0\<bar> + \<bar>e0\<bar>) / 2 ^ 50 + 1 / 2 ^ 1073) \<and>
            min c1 e1 - ((\<bar>c1\<bar> + \<bar>e1\<bar>) / 2 ^ 50 + 1 / 2 ^ 1073) \<le> c1' \<and>
            c1' \<le> max c1 e1 + ((\<bar>c1\<bar> + \<bar>e1\<bar>) / 2 ^ 50 + 1 / 2 ^ 1073)"
    if "delta \<le> 1 / 5"
    unfolding c
    using lerp_overshoot [OF r(1) smoothingSpeed_le_one [OF assms(4) that], of c0 e0]
      lerp_overshoot [OF r(1) smoothingSpeed_le_one [OF assms(4) that], of c1 e1]
    by blast
  show ?thesis
    unfolding c
    using r e o [unfolded c] lerp_progress [OF r, of c0 e0] lerp_progress [OF r, of c1 e1]
    by blast
qed

theorem smoothing_progress_witness:
  "currentRotation (useFrame (1, - 2, 0) (1 / 16) 0
      \<lparr>groupRef = Some newGroup, currentRotation = (0, 0, 0)\<rparr>) = (5 / 16, - (5 / 8), 0) \<and>
   roundToDouble (5 * (1 / 16)) = 5 / 16 \<and> roundToDouble (5 * (1 / 16)) \<le> 2 \<and>
   \<bar>5 / 16 - 1\<bar> \<le> \<bar>1 - 5 / 16\<bar> * \<bar>0 - 1\<bar> + ((\<bar>0\<bar> + \<bar>1\<bar>) / 2 ^ 50 + 1 / 2 ^ 1073 :: real) \<and>
   \<bar>- (5 / 8) - (- 2)\<bar> \<le> \<bar>1 - 5 / 16\<bar> * \<bar>0 - (- 2)\<bar> + ((\<bar>0\<bar> + \<bar>- 2\<bar>) / 2 ^ 50 + 1 / 2 ^ 1073 :: real) \<and>
   min 0 1 - ((\<bar>0\<bar> + \<bar>1\<bar>) / 2 ^ 50 + 1 / 2 ^ 1073) \<le> (5 / 16 :: real) \<and>
   (5 / 16 :: real) \<le> max 0 1 + ((\<bar>0\<bar> + \<bar>1\<bar>) / 2 ^ 50 + 1 / 2 ^ 1073)"
  using smoothing_progress [of "\<lparr>groupRef = Some newGroup, currentRotation = (0, 0, 0)\<rparr>" newGroup
      0 0 0 1 "- 2" 0 "1 / 16" 0 "5 / 16" "- (5 / 8)" 0]
  by (simp add: ex_tick ex_doubles)

lemma ex_big_tick:
  "currentRotation (useFrame (1, 0, 0) (1 / 2) 0
      \<lparr>groupRef = Some newGroup, currentRotation = (0, 0, 0)\<rparr>) = (5 / 2, 0, 0)"
  by (simp add: useFrame_def Let_def lerp_def ex_doubles)

text \<open>
  C3, as stated, fails. With a target X rotation of 1, a displayed X rotation of 0 and a
  tick of half a second, the factor is 2.5 and the new X rotation is 2.5: it is past the
  target, and its distance to the target went from 1 to 1.5. And on an axis already at
  the target (Y here) the distance stays 0: it does not strictly decrease. Every
  operation of this tick is exact in doubles.
\<close>

theorem smoothing_counterexample:
  "(0::real) < 1 / 2 \<and>
   fst (currentRotation \<lparr>groupRef = Some newGroup, currentRotation = (0, 0, 0)\<rparr>) < 1 \<and>
   1 < fst (currentRotation (useFrame (1, 0, 0) (1 / 2) 0
              \<lparr>groupRef = Some newGroup, currentRotation = (0, 0, 0)\<rparr>)) \<and>
   \<not> \<bar>fst (currentRotation (useFrame (1, 0, 0) (1 / 2) 0
              \<lparr>groupRef = Some newGroup, currentRotation = (0, 0, 0)\<rparr>)) - 1\<bar>
       < \<bar>fst (currentRotation \<lparr>groupRef = Some newGroup, currentRotation = (0, 0, 0)\<rparr>) - 1\<bar> \<and>
   \<not> \<bar>fst (snd (currentRotation (useFrame (1, 0, 0) (1 / 2) 0
              \<lparr>groupRef = Some newGroup, currentRotation = (0, 0, 0)\<rparr>))) - 0\<bar>
       < \<bar>fst (snd (currentRotation \<lparr>groupRef = Some newGroup, currentRotation = (0, 0, 0)\<rparr>)) - 0\<bar>"
  by (simp add: ex_big_tick)

text \<open>
  C8. The Z component is always 0. An invocation of \<^verbatim>\<open>predict\<close> either leaves the target
  rotation as it was or writes one whose Z is 0, so from the initial state every target
  has Z = 0; and no render tick changes the Z of \<^verbatim>\<open>currentRotation\<close> or of the group's
  rotation, which both start at 0.
\<close>

theorem rotation_z_zero:
  "(\<forall>s'. predict hl video s = Inr s' \<longrightarrow>
       targetRotation s' = targetRotation s \<or> snd (snd (targetRotation s')) = 0) \<and>
   (\<forall>s'. predictLoop hl frames initialApp = Inr s' \<longrightarrow> snd (snd (targetRotation s')) = 0) \<and>
   snd (snd (currentRotation (renderLoop ext ticks refs))) = snd (snd (currentRotation refs)) \<and>
   map_option (\<lambda>g. vz (groupRotation g)) (groupRef (renderLoop ext ticks refs))
     = map_option (\<lambda>g. vz (groupRotation g)) (groupRef refs) \<and>
   snd (snd (currentRotation (renderLoop ext ticks (initialRefs\<lparr>groupRef := Some newGroup\<rparr>)))) = 0 \<and>
   map_option (\<lambda>g. vz (groupRotation g))
     (groupRef (renderLoop ext ticks (initialRefs\<lparr>groupRef := Some newGroup\<rparr>))) = Some 0"
proof -
  have "snd (snd (targetRotation initialApp)) = 0" by (simp add: initialApp_def)
  then have "\<forall>s'. predictLoop hl frames initialApp = Inr s' \<longrightarrow> snd (snd (targetRotation s')) = 0"
    using predictLoop_z by blast
  moreover have "\<forall>s'. predict hl video s = Inr s' \<longrightarrow>
       targetRotation s' = targetRotation s \<or> snd (snd (targetRotation s')) = 0"
    using predict_z by blast
  moreover have "snd (snd (currentRotation (renderLoop ext ticks (initialRefs\<lparr>groupRef := Some newGroup\<rparr>)))) = 0"
    using renderLoop_z [of ext ticks "initialRefs\<lparr>groupRef := Some newGroup\<rparr>"]
    by (simp add: initialRefs_def)
  moreover have "map_option (\<lambda>g. vz (groupRotation g))
     (groupRef (renderLoop ext ticks (initialRefs\<lparr>groupRef := Some newGroup\<rparr>))) = Some 0"
    using renderLoop_z [of ext ticks "initialRefs\<lparr>groupRef := Some newGroup\<rparr>"]
    by (simp add: initialRefs_def newGroup_def)
  ultimately show ?thesis using renderLoop_z [of ext ticks refs] by blast
qed

theorem rotation_z_zero_witness:
  "predictLoop True [exampleFrame 0 [exampleHand (HandLandmark 1 1 5)], exampleFrame 1 []] initialApp
     = Inr \<lparr>targetRotation = (pi, 2 * pi, 0), lastVideoTime = 1, detectCalls = 2\<rparr> \<and>
   snd (snd (targetRotation \<lparr>targetRotation = (pi, 2 * pi, 0), lastVideoTime = 1, detectCalls = 2\<rparr>)) = (0::real) \<and>
   snd (snd (currentRotation (renderLoop (1, 2, 3) [(1 / 60, 0), (1 / 60, 16)]
       (initialRefs\<lparr>groupRef := Some newGroup\<rparr>)))) = 0"
  using rotation_z_zero [of True "exampleFrame 0 [exampleHand (HandLandmark 1 1 5)]" initialApp
      "[exampleFrame 0 [exampleHand (HandLandmark 1 1 5)], exampleFrame 1 []]"
      "(1, 2, 3)" "[(1 / 60, 0), (1 / 60, 16)]" "initialRefs\<lparr>groupRef := Some newGroup\<rparr>"]
  by (simp add: predict_def Let_def arrayAt_def exampleHand_def exampleFrame_def initialApp_def
      nth_append)

section \<open>Lemmas on the scale factor\<close>


lemma scaleFactor_zero: "jsDivide targetSize (jsOr 0 1) = Double 4"
  using roundToDouble_int [of 4]
  by (simp add: jsOr_def jsDivide_def toDouble_def targetSize_def overflowThreshold_def)


section \<open>Lemmas on the scene graph\<close>

lemma clone_basic:
  "cloneRecursive n h = (n', h') \<Longrightarrow>
     nextObject h \<le> nextObject h' \<and> materials h' = materials h \<and> nextMaterial h' = nextMaterial h \<and>
     geometries h' = geometries h \<and>
     (\<forall>r < nextObject h. objects h' r = objects h r) \<and>
     refsOf n' = [nextObject h ..< nextObject h']"
  "cloneChildren ns h = (ns', h') \<Longrightarrow>
     nextObject h \<le> nextObject h' \<and> materials h' = materials h \<and> nextMaterial h' = nextMaterial h \<and>
     geometries h' = geometries h \<and>
     (\<forall>r < nextObject h. objects h' r = objects h r) \<and>
     refsOfList ns' = [nextObject h ..< nextObject h']"
proof (induction n h and ns h arbitrary: n' h' and ns' h' rule: cloneRecursive_cloneChildren.induct)
  case (1 r cs h)
  let ?h1 = "h\<lparr>objects := (objects h)(nextObject h := objects h r), nextObject := Suc (nextObject h)\<rparr>"
  obtain cs' h2 where c: "cloneChildren cs ?h1 = (cs', h2)" by (cases "cloneChildren cs ?h1")
  with "1.prems" have eq: "n' = Node (nextObject h) cs'" "h' = h2"
    by (simp_all add: Let_def)
  from "1.IH" [OF refl refl c]
  have ih: "nextObject ?h1 \<le> nextObject h2" "materials h2 = materials ?h1" "nextMaterial h2 = nextMaterial ?h1"
    "\<forall>r < nextObject ?h1. objects h2 r = objects ?h1 r" "refsOfList cs' = [nextObject ?h1 ..< nextObject h2]"
    "geometries h2 = geometries ?h1"
    by simp_all
  have n1: "nextObject ?h1 = Suc (nextObject h)" by simp
  have "refsOf n' = nextObject h # [Suc (nextObject h) ..< nextObject h2]"
    using ih(5) n1 by (simp add: eq)
  also have "\<dots> = [nextObject h ..< nextObject h2]"
    using ih(1) n1 by (simp add: upt_conv_Cons)
  finally have "refsOf n' = [nextObject h ..< nextObject h']" by (simp add: eq)
  moreover have "\<forall>r < nextObject h. objects h' r = objects h r"
    using ih(4) by (simp add: eq)
  ultimately show ?case using ih by (simp add: eq)
next
  case (2 h)
  then show ?case by simp
next
  case (3 c cs h)
  obtain c' h1 where c: "cloneRecursive c h = (c', h1)" by (cases "cloneRecursive c h")
  obtain cs' h2 where cs: "cloneChildren cs h1 = (cs', h2)" by (cases "cloneChildren cs h1")
  with c "3.prems" have eq: "ns' = c' # cs'" "h' = h2" by simp_all
  note ih1 = "3.IH"(1) [OF c]
  note ih2 = "3.IH"(2) [OF c [symmetric] cs]
  have "refsOfList ns' = [nextObject h ..< nextObject h1] @ [nextObject h1 ..< nextObject h2]"
    using ih1 ih2 by (simp add: eq)
  also have "\<dots> = [nextObject h ..< nextObject h2]"
    using ih1 ih2 by (metis le_Suc_ex upt_add_eq_append)
  finally show ?case using ih1 ih2 by (simp add: eq)
qed

lemma gview_cong:
  "\<forall>g. boxOf (geometries h' g) = boxOf (geometries h g) \<Longrightarrow>
     \<forall>r \<in> set (refsOf n). geoSame (objects h r) (objects h' r) \<Longrightarrow> gview h' n = gview h n"
  "\<forall>g. boxOf (geometries h' g) = boxOf (geometries h g) \<Longrightarrow>
     \<forall>r \<in> set (refsOfList ns). geoSame (objects h r) (objects h' r) \<Longrightarrow>
     gviewList h' ns = gviewList h ns"
  by (induction n and ns rule: refsOf_refsOfList.induct)
    (simp_all add: geoSame_def geometryBox_def)

lemma gview_same:
  "geometries h' = geometries h \<Longrightarrow>
     \<forall>r \<in> set (refsOf n). geoSame (objects h r) (objects h' r) \<Longrightarrow> gview h' n = gview h n"
  "geometries h' = geometries h \<Longrightarrow>
     \<forall>r \<in> set (refsOfList ns). geoSame (objects h r) (objects h' r) \<Longrightarrow>
     gviewList h' ns = gviewList h ns"
  by (rule gview_cong; simp)+

lemma geoSame_refl [simp]: "geoSame ob ob" by (simp add: geoSame_def)
lemma matSame_refl [simp]: "matSame ob ob" by (simp add: matSame_def)

lemma clone_gview:
  "cloneRecursive n h = (n', h') \<Longrightarrow> \<forall>r \<in> set (refsOf n). r < nextObject h \<Longrightarrow>
     gview h' n' = gview h n"
  "cloneChildren ns h = (ns', h') \<Longrightarrow> \<forall>r \<in> set (refsOfList ns). r < nextObject h \<Longrightarrow>
     gviewList h' ns' = gviewList h ns"
proof (induction n h and ns h arbitrary: n' h' and ns' h' rule: cloneRecursive_cloneChildren.induct)
  case (1 r cs h)
  let ?h1 = "h\<lparr>objects := (objects h)(nextObject h := objects h r), nextObject := Suc (nextObject h)\<rparr>"
  obtain cs' h2 where c: "cloneChildren cs ?h1 = (cs', h2)" by (cases "cloneChildren cs ?h1")
  with "1.prems" have eq: "n' = Node (nextObject h) cs'" "h' = h2"
    by (simp_all add: Let_def)
  from "1.prems"(2) have alloc: "r < nextObject h" "\<forall>x \<in> set (refsOfList cs). x < nextObject h"
    by simp_all
  then have "\<forall>x \<in> set (refsOfList cs). x < nextObject ?h1" by auto
  from "1.IH" [OF refl refl c this] have ih: "gviewList h2 cs' = gviewList ?h1 cs" .
  have "\<forall>x \<in> set (refsOfList cs). geoSame (objects h x) (objects ?h1 x)"
    using alloc by auto
  then have "gviewList ?h1 cs = gviewList h cs" by (intro gview_same(2)) simp_all
  moreover have "objects h2 (nextObject h) = objects h r" "geometries h2 = geometries h"
    using clone_basic(2) [OF c] by simp_all
  ultimately show ?case using ih by (simp add: eq geometryBox_def)
next
  case (2 h)
  then show ?case by simp
next
  case (3 c cs h)
  obtain c' h1 where c: "cloneRecursive c h = (c', h1)" by (cases "cloneRecursive c h")
  obtain cs' h2 where cs: "cloneChildren cs h1 = (cs', h2)" by (cases "cloneChildren cs h1")
  with c "3.prems" have eq: "ns' = c' # cs'" "h' = h2" by simp_all
  note b1 = clone_basic(1) [OF c]
  note b2 = clone_basic(2) [OF cs]
  from "3.prems"(2) have alloc: "\<forall>x \<in> set (refsOf c). x < nextObject h"
    "\<forall>x \<in> set (refsOfList cs). x < nextObject h" by simp_all
  from "3.IH"(1) [OF c alloc(1)] have ih1: "gview h1 c' = gview h c" .
  from alloc(2) b1 have "\<forall>x \<in> set (refsOfList cs). x < nextObject h1" by auto
  from "3.IH"(2) [OF c [symmetric] cs this] have ih2: "gviewList h2 cs' = gviewList h1 cs" .
  have "\<forall>x \<in> set (refsOfList cs). geoSame (objects h x) (objects h1 x)"
    using alloc(2) b1 by simp
  then have e1: "gviewList h1 cs = gviewList h cs" using b1 by (intro gview_same(2)) simp_all
  have "\<forall>x \<in> set (refsOf c'). geoSame (objects h1 x) (objects h2 x)"
    using b1 b2 by simp
  then have e2: "gview h2 c' = gview h1 c'" using b2 by (intro gview_same(1)) simp_all
  show ?case using ih1 ih2 e1 e2 by (simp add: eq)
qed

text \<open>The clone of an object has the fields of its source.\<close>

lemma clone_objects:
  "cloneRecursive n h = (n', h') \<Longrightarrow> \<forall>r \<in> set (refsOf n). r < nextObject h \<Longrightarrow>
     list_all2 (\<lambda>r r'. objects h' r' = objects h r) (refsOf n) (refsOf n')"
  "cloneChildren ns h = (ns', h') \<Longrightarrow> \<forall>r \<in> set (refsOfList ns). r < nextObject h \<Longrightarrow>
     list_all2 (\<lambda>r r'. objects h' r' = objects h r) (refsOfList ns) (refsOfList ns')"
proof (induction n h and ns h arbitrary: n' h' and ns' h' rule: cloneRecursive_cloneChildren.induct)
  case (1 r cs h)
  let ?h1 = "h\<lparr>objects := (objects h)(nextObject h := objects h r), nextObject := Suc (nextObject h)\<rparr>"
  obtain cs' h2 where c: "cloneChildren cs ?h1 = (cs', h2)" by (cases "cloneChildren cs ?h1")
  with "1.prems" have eq: "n' = Node (nextObject h) cs'" "h' = h2"
    by (simp_all add: Let_def)
  from "1.prems"(2) have alloc: "r < nextObject h" "\<forall>x \<in> set (refsOfList cs). x < nextObject h"
    by simp_all
  then have "\<forall>x \<in> set (refsOfList cs). x < nextObject ?h1" by auto
  from "1.IH" [OF refl refl c this]
  have ih: "list_all2 (\<lambda>r r'. objects h2 r' = objects ?h1 r) (refsOfList cs) (refsOfList cs')" .
  have "list_all2 (\<lambda>r r'. objects h2 r' = objects h r) (refsOfList cs) (refsOfList cs')"
    by (rule list.rel_mono_strong [OF ih]) (use alloc in auto)
  moreover have "objects h2 (nextObject h) = objects h r"
    using clone_basic(2) [OF c] by simp
  ultimately show ?case by (simp add: eq)
next
  case (2 h)
  then show ?case by simp
next
  case (3 c cs h)
  obtain c' h1 where c: "cloneRecursive c h = (c', h1)" by (cases "cloneRecursive c h")
  obtain cs' h2 where cs: "cloneChildren cs h1 = (cs', h2)" by (cases "cloneChildren cs h1")
  with c "3.prems" have eq: "ns' = c' # cs'" "h' = h2" by simp_all
  note b1 = clone_basic(1) [OF c]
  note b2 = clone_basic(2) [OF cs]
  from "3.prems"(2) have alloc: "\<forall>x \<in> set (refsOf c). x < nextObject h"
    "\<forall>x \<in> set (refsOfList cs). x < nextObject h" by simp_all
  from "3.IH"(1) [OF c alloc(1)]
  have ih1: "list_all2 (\<lambda>r r'. objects h1 r' = objects h r) (refsOf c) (refsOf c')" .
  from alloc(2) b1 have "\<forall>x \<in> set (refsOfList cs). x < nextObject h1" by auto
  from "3.IH"(2) [OF c [symmetric] cs this]
  have ih2: "list_all2 (\<lambda>r r'. objects h2 r' = objects h1 r) (refsOfList cs) (refsOfList cs')" .
  have a: "list_all2 (\<lambda>r r'. objects h2 r' = objects h r) (refsOf c) (refsOf c')"
    by (rule list.rel_mono_strong [OF ih1]) (use b1 b2 in auto)
  have b: "list_all2 (\<lambda>r r'. objects h2 r' = objects h r) (refsOfList cs) (refsOfList cs')"
    by (rule list.rel_mono_strong [OF ih2]) (use b1 alloc(2) in auto)
  from a b show ?case by (simp add: eq list_all2_appendI)
qed

lemma preserved_trans:
  "preserved A k a b \<Longrightarrow> preserved A k b c \<Longrightarrow> preserved A k a c"
  by (auto simp: preserved_def geoSame_def)

lemma preserved_refl: "k \<le> nextMaterial h \<Longrightarrow> preserved A k h h"
  by (simp add: preserved_def)

lemma preserved_next: "preserved A k h h' \<Longrightarrow> k \<le> nextMaterial h'"
  by (simp add: preserved_def)

lemma preserved_mono:
  "preserved A k h h' \<Longrightarrow> A \<subseteq> B \<Longrightarrow> k' \<le> k \<Longrightarrow> preserved B k' h h'"
  by (auto simp: preserved_def)

lemma traverse_preserved:
  assumes cb: "\<And>m s. ref m \<in> A \<Longrightarrow> k \<le> nextMaterial s \<Longrightarrow> preserved A k s (cb m s)"
  shows "set (refsOf n) \<subseteq> A \<Longrightarrow> k \<le> nextMaterial s \<Longrightarrow> preserved A k s (traverse cb n s)"
    and "set (refsOfList ns) \<subseteq> A \<Longrightarrow> k \<le> nextMaterial s \<Longrightarrow> preserved A k s (traverseChildren cb ns s)"
proof (induction n and ns arbitrary: s and s rule: refsOf_refsOfList.induct)
  case (1 r cs)
  have a: "preserved A k s (cb (Node r cs) s)" using 1 cb by simp
  from preserved_next [OF a] 1 have "preserved A k (cb (Node r cs) s) (traverseChildren cb cs (cb (Node r cs) s))"
    by simp
  with a show ?case using preserved_trans by auto
next
  case 2
  then show ?case by (simp add: preserved_refl)
next
  case (3 c cs)
  then have a: "preserved A k s (traverse cb c s)" by simp
  from preserved_next [OF a] 3 have "preserved A k (traverse cb c s) (traverseChildren cb cs (traverse cb c s))"
    by simp
  with a show ?case using preserved_trans by auto
qed

lemma applySettings_props:
  assumes "applySettings mat h = (newMat, h')"
  shows "newMat = nextMaterial h" "nextMaterial h' = Suc (nextMaterial h)"
    "objects h' = objects h" "nextObject h' = nextObject h" "geometries h' = geometries h"
    "\<forall>m < nextMaterial h. materials h' m = materials h m"
    "forcedCopy (materials h mat) (materials h' newMat)"
  using assms
  by (auto simp: applySettings_def cloneMaterial_def forcedCopy_def Let_def split: prod.splits)

lemma mapApplySettings_props:
  "mapApplySettings mats h = (newMats, h') \<Longrightarrow>
     nextMaterial h \<le> nextMaterial h' \<and> objects h' = objects h \<and> nextObject h' = nextObject h \<and>
     geometries h' = geometries h \<and>
     (\<forall>m < nextMaterial h. materials h' m = materials h m)"
proof (induction mats arbitrary: h newMats h')
  case Nil
  then show ?case by simp
next
  case (Cons mat mats)
  obtain newMat h1 where a: "applySettings mat h = (newMat, h1)" by (cases "applySettings mat h")
  obtain rest h2 where b: "mapApplySettings mats h1 = (rest, h2)" by (cases "mapApplySettings mats h1")
  with a Cons.prems have eq: "newMats = newMat # rest" "h' = h2" by simp_all
  note p = applySettings_props [OF a]
  note ih = Cons.IH [OF b]
  show ?case using p ih by (auto simp: eq)
qed

text \<open>The new materials are, in order, the forced copies of the old ones.\<close>

lemma mapApplySettings_copies:
  "mapApplySettings mats h = (newMats, h') \<Longrightarrow> \<forall>m \<in> set mats. m < nextMaterial h \<Longrightarrow>
     list_all2 (\<lambda>m m'. nextMaterial h \<le> m' \<and> m' < nextMaterial h' \<and>
                  forcedCopy (materials h m) (materials h' m')) mats newMats"
proof (induction mats arbitrary: h newMats h')
  case Nil
  then show ?case by simp
next
  case (Cons mat mats)
  obtain newMat h1 where a: "applySettings mat h = (newMat, h1)" by (cases "applySettings mat h")
  obtain rest h2 where b: "mapApplySettings mats h1 = (rest, h2)" by (cases "mapApplySettings mats h1")
  with a Cons.prems have eq: "newMats = newMat # rest" "h' = h2" by simp_all
  note p = applySettings_props [OF a]
  note q = mapApplySettings_props [OF b]
  from Cons.prems(2) p have "\<forall>m \<in> set mats. m < nextMaterial h1" by auto
  from Cons.IH [OF b this]
  have ih: "list_all2 (\<lambda>m m'. nextMaterial h1 \<le> m' \<and> m' < nextMaterial h2 \<and>
                  forcedCopy (materials h1 m) (materials h2 m')) mats rest" .
  have r: "list_all2 (\<lambda>m m'. nextMaterial h \<le> m' \<and> m' < nextMaterial h2 \<and>
                  forcedCopy (materials h m) (materials h2 m')) mats rest"
    by (rule list.rel_mono_strong [OF ih]) (use p Cons.prems(2) in auto)
  have "materials h2 newMat = materials h1 newMat" using p q by simp
  then have "forcedCopy (materials h mat) (materials h2 newMat)" using p(7) by simp
  moreover have "nextMaterial h \<le> newMat" "newMat < nextMaterial h2" using p q by simp_all
  ultimately show ?case using r by (simp add: eq)
qed

lemma updateObject_simps [simp]:
  "nextObject (updateObject r f h) = nextObject h"
  "materials (updateObject r f h) = materials h"
  "nextMaterial (updateObject r f h) = nextMaterial h"
  "geometries (updateObject r f h) = geometries h"
  "objects (updateObject r f h) x = (if x = r then f (objects h r) else objects h x)"
  by (simp_all add: updateObject_def)

lemma materialSetup_preserved:
  assumes "ref m \<in> A" "k \<le> nextMaterial h"
  shows "preserved A k h (materialSetup m h)"
proof (cases "isMesh (objects h (ref m))")
  case False
  then show ?thesis using assms by (simp add: materialSetup_def preserved_refl)
next
  case True
  let ?h2 = "updateObject (ref m) (\<lambda>ob. ob\<lparr>receiveShadow := True\<rparr>)
               (updateObject (ref m) (\<lambda>ob. ob\<lparr>castShadow := True\<rparr>) h)"
  show ?thesis
  proof (cases "material (objects h (ref m))")
    case NoMaterial
    with True assms show ?thesis
      by (simp add: materialSetup_def Let_def preserved_def geoSame_def)
  next
    case (SingleMaterial mat)
    obtain newMat h3 where a: "applySettings mat ?h2 = (newMat, h3)" by (cases "applySettings mat ?h2")
    note p = applySettings_props [OF a]
    from True SingleMaterial a assms p show ?thesis
      by (simp add: materialSetup_def Let_def preserved_def geoSame_def)
  next
    case (MaterialArray mats)
    obtain newMats h3 where a: "mapApplySettings mats ?h2 = (newMats, h3)"
      by (cases "mapApplySettings mats ?h2")
    note p = mapApplySettings_props [OF a]
    from True MaterialArray a assms p show ?thesis
      by (simp add: materialSetup_def Let_def preserved_def geoSame_def)
  qed
qed

lemma materialSetup_next: "nextMaterial h \<le> nextMaterial (materialSetup m h)"
  using materialSetup_preserved [of m UNIV "nextMaterial h" h] by (simp add: preserved_def)

lemma materialsSetUp_later:
  assumes "materialsSetUp s0 f a b"
    and "\<forall>x < nextMaterial f. materials f' x = materials f x"
    and "nextMaterial f \<le> nextMaterial f'"
  shows "materialsSetUp s0 f' a b"
proof -
  have fc: "freshCopy s0 f' m m'" if "freshCopy s0 f m m'" for m m'
    using that assms(2,3) by (auto simp: freshCopy_def)
  show ?thesis
  proof (cases a)
    case NoMaterial
    with assms(1) show ?thesis by (cases b) simp_all
  next
    case (SingleMaterial m)
    with assms(1) fc show ?thesis by (cases b) simp_all
  next
    case (MaterialArray ms)
    show ?thesis
    proof (cases b)
      case (MaterialArray ms')
      with \<open>a = MaterialArray ms\<close> assms(1) have "list_all2 (freshCopy s0 f) ms ms'" by simp
      then have "list_all2 (freshCopy s0 f') ms ms'"
        by (rule list_all2_mono) (rule fc)
      with MaterialArray \<open>a = MaterialArray ms\<close> show ?thesis by simp
    qed (use \<open>a = MaterialArray ms\<close> assms(1) in simp_all)
  qed
qed

lemma setUp_later:
  assumes "setUp s0 f r r'"
    and "matSame (objects f r') (objects f' r')"
    and "\<forall>x < nextMaterial f. materials f' x = materials f x"
    and "nextMaterial f \<le> nextMaterial f'"
  shows "setUp s0 f' r r'"
  using assms materialsSetUp_later [OF _ assms(3,4)]
  by (auto simp: setUp_def matSame_def)

lemma materialSetup_setUp:
  assumes obj: "objects s (ref m) = objects s0 (ref m)"
    and mats: "\<forall>x < nextMaterial s0. materials s x = materials s0 x"
    and k: "nextMaterial s0 \<le> nextMaterial s"
    and al: "\<forall>x \<in> set (materialRefs (material (objects s0 (ref m)))). x < nextMaterial s0"
  shows "setUp s0 (materialSetup m s) (ref m) (ref m)"
proof (cases "isMesh (objects s (ref m))")
  case False
  then show ?thesis using obj by (simp add: materialSetup_def setUp_def)
next
  case True
  let ?h2 = "updateObject (ref m) (\<lambda>ob. ob\<lparr>receiveShadow := True\<rparr>)
               (updateObject (ref m) (\<lambda>ob. ob\<lparr>castShadow := True\<rparr>) s)"
  show ?thesis
  proof (cases "material (objects s (ref m))")
    case NoMaterial
    with True obj show ?thesis
      by (simp add: materialSetup_def Let_def setUp_def)
  next
    case (SingleMaterial mat)
    obtain newMat h3 where a: "applySettings mat ?h2 = (newMat, h3)" by (cases "applySettings mat ?h2")
    note p = applySettings_props [OF a]
    from al obj SingleMaterial have "mat < nextMaterial s0" by simp
    with mats have "materials ?h2 mat = materials s0 mat" by simp
    with p(7) have "forcedCopy (materials s0 mat) (materials h3 newMat)" by simp
    with p k have "freshCopy s0 h3 mat newMat" by (simp add: freshCopy_def)
    then have "freshCopy s0 (updateObject (ref m) (\<lambda>ob. ob\<lparr>material := SingleMaterial newMat\<rparr>) h3) mat newMat"
      by (simp add: freshCopy_def)
    with True SingleMaterial a obj p show ?thesis
      by (simp add: materialSetup_def Let_def setUp_def)
  next
    case (MaterialArray mats')
    obtain newMats h3 where a: "mapApplySettings mats' ?h2 = (newMats, h3)"
      by (cases "mapApplySettings mats' ?h2")
    note p = mapApplySettings_props [OF a]
    from al obj MaterialArray have lt: "\<forall>x \<in> set mats'. x < nextMaterial s0" by simp
    with k have "\<forall>x \<in> set mats'. x < nextMaterial ?h2" by auto
    from mapApplySettings_copies [OF a this]
    have c: "list_all2 (\<lambda>x x'. nextMaterial ?h2 \<le> x' \<and> x' < nextMaterial h3 \<and>
                  forcedCopy (materials ?h2 x) (materials h3 x')) mats' newMats" .
    have "list_all2 (freshCopy s0 (updateObject (ref m) (\<lambda>ob. ob\<lparr>material := MaterialArray newMats\<rparr>) h3))
            mats' newMats"
      by (rule list.rel_mono_strong [OF c]) (use lt mats k in \<open>auto simp: freshCopy_def\<close>)
    with True MaterialArray a obj p show ?thesis
      by (simp add: materialSetup_def Let_def setUp_def)
  qed
qed

lemma preserved_setUp:
  assumes "preserved A (nextMaterial f) f f'" "r' \<notin> A" "setUp s0 f r r'"
  shows "setUp s0 f' r r'"
proof (rule setUp_later [OF assms(3)])
  from assms(1,2) have "objects f' r' = objects f r'" by (simp add: preserved_def)
  then show "matSame (objects f r') (objects f' r')" by simp
  from assms(1) show "\<forall>x < nextMaterial f. materials f' x = materials f x"
    by (simp add: preserved_def)
  from assms(1) show "nextMaterial f \<le> nextMaterial f'" by (simp add: preserved_def)
qed

lemma traverse_setUp:
  "distinct (refsOf n) \<Longrightarrow> \<forall>r \<in> set (refsOf n). objects s r = objects s0 r \<Longrightarrow>
     \<forall>x < nextMaterial s0. materials s x = materials s0 x \<Longrightarrow> nextMaterial s0 \<le> nextMaterial s \<Longrightarrow>
     \<forall>r \<in> set (refsOf n). \<forall>x \<in> set (materialRefs (material (objects s0 r))). x < nextMaterial s0 \<Longrightarrow>
     \<forall>r \<in> set (refsOf n). setUp s0 (traverse materialSetup n s) r r"
  "distinct (refsOfList ns) \<Longrightarrow> \<forall>r \<in> set (refsOfList ns). objects s r = objects s0 r \<Longrightarrow>
     \<forall>x < nextMaterial s0. materials s x = materials s0 x \<Longrightarrow> nextMaterial s0 \<le> nextMaterial s \<Longrightarrow>
     \<forall>r \<in> set (refsOfList ns). \<forall>x \<in> set (materialRefs (material (objects s0 r))). x < nextMaterial s0 \<Longrightarrow>
     \<forall>r \<in> set (refsOfList ns). setUp s0 (traverseChildren materialSetup ns s) r r"
proof (induction n and ns arbitrary: s and s rule: refsOf_refsOfList.induct)
  case (1 r cs)
  let ?s1 = "materialSetup (Node r cs) s"
  let ?f = "traverseChildren materialSetup cs ?s1"
  from 1(2) have d: "r \<notin> set (refsOfList cs)" "distinct (refsOfList cs)" by simp_all
  have step: "setUp s0 ?s1 r r"
    using materialSetup_setUp [of s "Node r cs" s0] 1(3,4,5,6) by simp
  have fr1: "preserved {r} (nextMaterial s) s ?s1"
    by (rule materialSetup_preserved) simp_all
  have o1: "\<forall>x \<in> set (refsOfList cs). objects ?s1 x = objects s0 x"
    using fr1 d(1) 1(3) by (auto simp: preserved_def)
  have m1: "\<forall>x < nextMaterial s0. materials ?s1 x = materials s0 x"
    using fr1 1(4,5) by (auto simp: preserved_def)
  have k1: "nextMaterial s0 \<le> nextMaterial ?s1"
    using fr1 1(5) by (auto simp: preserved_def)
  have a1: "\<forall>x \<in> set (refsOfList cs). \<forall>y \<in> set (materialRefs (material (objects s0 x))). y < nextMaterial s0"
    using 1(6) by auto
  from 1(1) [OF d(2) o1 m1 k1 a1] have ih: "\<forall>x \<in> set (refsOfList cs). setUp s0 ?f x x" .
  have fr2: "preserved (set (refsOfList cs)) (nextMaterial ?s1) ?s1 ?f"
    by (rule traverse_preserved(2) [OF materialSetup_preserved]) simp_all
  from preserved_setUp [OF fr2 d(1) step] have "setUp s0 ?f r r" .
  with ih show ?case by simp
next
  case 2
  then show ?case by simp
next
  case (3 c cs)
  let ?f1 = "traverse materialSetup c s"
  let ?f = "traverseChildren materialSetup cs ?f1"
  from 3(3) have d: "distinct (refsOf c)" "distinct (refsOfList cs)"
    "set (refsOf c) \<inter> set (refsOfList cs) = {}" by simp_all
  have o0: "\<forall>x \<in> set (refsOf c). objects s x = objects s0 x" using 3(4) by auto
  have a0: "\<forall>x \<in> set (refsOf c). \<forall>y \<in> set (materialRefs (material (objects s0 x))). y < nextMaterial s0"
    using 3(7) by auto
  have ih1: "\<forall>x \<in> set (refsOf c). setUp s0 ?f1 x x"
    by (rule 3(1) [OF d(1) o0 3(5,6) a0])
  have fr1: "preserved (set (refsOf c)) (nextMaterial s) s ?f1"
    by (rule traverse_preserved(1) [OF materialSetup_preserved]) simp_all
  have o1: "\<forall>x \<in> set (refsOfList cs). objects ?f1 x = objects s0 x"
    using fr1 d(3) 3(4) by (auto simp: preserved_def)
  have m1: "\<forall>x < nextMaterial s0. materials ?f1 x = materials s0 x"
    using fr1 3(5,6) by (auto simp: preserved_def)
  have k1: "nextMaterial s0 \<le> nextMaterial ?f1"
    using fr1 3(6) by (auto simp: preserved_def)
  have a1: "\<forall>x \<in> set (refsOfList cs). \<forall>y \<in> set (materialRefs (material (objects s0 x))). y < nextMaterial s0"
    using 3(7) by auto
  from 3(2) [OF d(2) o1 m1 k1 a1] have ih2: "\<forall>x \<in> set (refsOfList cs). setUp s0 ?f x x" .
  have fr2: "preserved (set (refsOfList cs)) (nextMaterial ?f1) ?f1 ?f"
    by (rule traverse_preserved(2) [OF materialSetup_preserved]) simp_all
  have "setUp s0 ?f x x" if "x \<in> set (refsOf c)" for x
  proof -
    from that d(3) have "x \<notin> set (refsOfList cs)" by auto
    from preserved_setUp [OF fr2 this] ih1 that show ?thesis by simp
  qed
  with ih2 show ?case by auto
qed

lemma unchangedButMatrices_refl: "unchangedButMatrices A h h"
  by (simp add: unchangedButMatrices_def)

lemma unchangedButMatrices_trans:
  "unchangedButMatrices A a b \<Longrightarrow> unchangedButMatrices A b c \<Longrightarrow> unchangedButMatrices A a c"
  by (auto simp: unchangedButMatrices_def geoSame_def matSame_def)

lemma unchangedButMatrices_mono:
  "unchangedButMatrices A a b \<Longrightarrow> A \<subseteq> B \<Longrightarrow> unchangedButMatrices B a b"
  by (auto simp: unchangedButMatrices_def)

lemma updateMatrixWorld_frame:
  "unchangedButMatrices (set (refsOf n)) h (updateMatrixWorld parent n h)"
  "unchangedButMatrices (set (refsOfList ns)) h (updateChildrenMatrixWorld pw ns h)"
proof (induction n and ns arbitrary: h parent and h pw rule: refsOf_refsOfList.induct)
  case (1 r cs)
  let ?m = "compose (position (objects h r)) (rotation (objects h r)) (scale (objects h r))"
  let ?mw = "case parent of None \<Rightarrow> ?m | Some pw \<Rightarrow> (\<lambda>v. pw (?m v))"
  let ?h1 = "updateObject r (\<lambda>ob. ob\<lparr>matrix := ?m, matrixWorld := ?mw\<rparr>) h"
  have a: "unchangedButMatrices (set (refsOf (Node r cs))) h ?h1"
    by (simp add: unchangedButMatrices_def geoSame_def matSame_def)
  have "unchangedButMatrices (set (refsOfList cs)) ?h1 (updateChildrenMatrixWorld ?mw cs ?h1)"
    by (rule 1)
  then have "unchangedButMatrices (set (refsOf (Node r cs))) ?h1 (updateChildrenMatrixWorld ?mw cs ?h1)"
    by (rule unchangedButMatrices_mono) auto
  with a show ?case by (simp add: Let_def unchangedButMatrices_trans)
next
  case 2
  then show ?case by (simp add: unchangedButMatrices_refl)
next
  case (3 c cs)
  have "unchangedButMatrices (set (refsOf c)) h (updateMatrixWorld (Some pw) c h)" by (rule 3)
  then have a: "unchangedButMatrices (set (refsOfList (c # cs))) h (updateMatrixWorld (Some pw) c h)"
    by (rule unchangedButMatrices_mono) auto
  have "unchangedButMatrices (set (refsOfList cs)) (updateMatrixWorld (Some pw) c h)
          (updateChildrenMatrixWorld pw cs (updateMatrixWorld (Some pw) c h))" by (rule 3)
  then have "unchangedButMatrices (set (refsOfList (c # cs))) (updateMatrixWorld (Some pw) c h)
          (updateChildrenMatrixWorld pw cs (updateMatrixWorld (Some pw) c h))"
    by (rule unchangedButMatrices_mono) auto
  with a show ?case by (simp add: unchangedButMatrices_trans)
qed

lemma stored_cong:
  "(\<forall>r \<in> set (refsOf n). objects h' r = objects h r) \<Longrightarrow> stored h' parent n = stored h parent n"
  "(\<forall>r \<in> set (refsOfList ns). objects h' r = objects h r) \<Longrightarrow> storedList h' pw ns = storedList h pw ns"
  by (induction n and ns arbitrary: parent and pw rule: refsOf_refsOfList.induct) simp_all

lemma updateMatrixWorld_stored:
  "distinct (refsOf n) \<Longrightarrow> stored (updateMatrixWorld parent n h) parent n"
  "distinct (refsOfList ns) \<Longrightarrow> storedList (updateChildrenMatrixWorld pw ns h) pw ns"
proof (induction n and ns arbitrary: h parent and h pw rule: refsOf_refsOfList.induct)
  case (1 r cs)
  let ?m = "compose (position (objects h r)) (rotation (objects h r)) (scale (objects h r))"
  let ?mw = "worldOf parent ?m"
  let ?h1 = "updateObject r (\<lambda>ob. ob\<lparr>matrix := ?m, matrixWorld := ?mw\<rparr>) h"
  let ?h2 = "updateChildrenMatrixWorld ?mw cs ?h1"
  from 1(2) have d: "r \<notin> set (refsOfList cs)" "distinct (refsOfList cs)" by simp_all
  have eq: "updateMatrixWorld parent (Node r cs) h = ?h2"
    by (simp add: Let_def worldOf_def)
  from updateMatrixWorld_frame(2) [of cs ?h1 ?mw] d(1)
  have "objects ?h2 r = objects ?h1 r" by (simp add: unchangedButMatrices_def)
  then have o: "objects ?h2 r = (objects h r)\<lparr>matrix := ?m, matrixWorld := ?mw\<rparr>" by simp
  from 1(1) [OF d(2)] have "storedList ?h2 ?mw cs" .
  with o show ?case unfolding eq by simp
next
  case 2
  then show ?case by simp
next
  case (3 c cs)
  let ?h1 = "updateMatrixWorld (Some pw) c h"
  let ?h2 = "updateChildrenMatrixWorld pw cs ?h1"
  from 3(3) have d: "distinct (refsOf c)" "distinct (refsOfList cs)" "set (refsOf c) \<inter> set (refsOfList cs) = {}"
    by simp_all
  from 3(1) [OF d(1)] have s1: "stored ?h1 (Some pw) c" .
  from updateMatrixWorld_frame(2) [of cs ?h1 pw] d(3)
  have "\<forall>r \<in> set (refsOf c). objects ?h2 r = objects ?h1 r"
    by (auto simp: unchangedButMatrices_def)
  from stored_cong(1) [OF this] s1 have "stored ?h2 (Some pw) c" by simp
  moreover from 3(2) [OF d(2)] have "storedList ?h2 pw cs" .
  ultimately show ?case by simp
qed

lemma boxCached_refl [simp]: "boxCached g g"
  by (simp add: boxCached_def)

lemma boxCached_trans: "boxCached a b \<Longrightarrow> boxCached b c \<Longrightarrow> boxCached a c"
  by (auto simp: boxCached_def)

lemma boxCached_boxOf: "boxCached a b \<Longrightarrow> boxOf b = boxOf a"
  by (auto simp: boxCached_def boxOf_def split: option.splits)

lemma cachesFilled_refl [simp]: "cachesFilled h h"
  by (simp add: cachesFilled_def)

lemma cachesFilled_trans: "cachesFilled a b \<Longrightarrow> cachesFilled b c \<Longrightarrow> cachesFilled a c"
  unfolding cachesFilled_def using boxCached_trans by metis

lemma cachesFilled_gview:
  assumes "cachesFilled h h'"
  shows "gview h' n = gview h n" and "gviewList h' ns = gviewList h ns"
proof -
  from assms have b: "\<forall>g. boxOf (geometries h' g) = boxOf (geometries h g)"
    by (simp add: cachesFilled_def boxCached_boxOf)
  from assms have o: "objects h' = objects h" by (simp add: cachesFilled_def)
  show "gview h' n = gview h n" by (rule gview_cong(1) [OF b]) (simp add: o)
  show "gviewList h' ns = gviewList h ns" by (rule gview_cong(2) [OF b]) (simp add: o)
qed

lemma cachesFilled_stored:
  assumes "cachesFilled h h'"
  shows "stored h' parent n = stored h parent n" and "storedList h' pw ns = storedList h pw ns"
  using assms by (simp_all add: cachesFilled_def stored_cong)

lemma computeBoundingBox_filled:
  "boundingBox (geometries h g) = None \<Longrightarrow> cachesFilled h (computeBoundingBox g h)"
  by (simp add: cachesFilled_def computeBoundingBox_def boxCached_def)

text \<open>The step of \<^verbatim>\<open>expandByObject\<close> at one object.\<close>

lemma expand_node:
  assumes "(case geometry (objects h r) of
              None \<Rightarrow> (box, h)
            | Some g \<Rightarrow>
               (let h1 = (if boundingBox (geometries h g) = None then computeBoundingBox g h else h)
                in case boundingBox (geometries h1 g) of
                     None \<Rightarrow> (box, h1)
                   | Some bb \<Rightarrow> (union box (applyMatrix4 bb (matrixWorld (objects h1 r))), h1)))
           = (b1, h1)"
  shows "b1 = (case geometryBox h r of
                 None \<Rightarrow> box
               | Some bb \<Rightarrow> union box (applyMatrix4 bb (matrixWorld (objects h r))))"
    and "cachesFilled h h1"
proof -
  have "b1 = (case geometryBox h r of
                 None \<Rightarrow> box
               | Some bb \<Rightarrow> union box (applyMatrix4 bb (matrixWorld (objects h r)))) \<and>
        cachesFilled h h1"
  proof (cases "geometry (objects h r)")
    case None
    with assms show ?thesis by (simp add: geometryBox_def)
  next
    case (Some g)
    show ?thesis
    proof (cases "boundingBox (geometries h g)")
      case None
      with Some assms computeBoundingBox_filled [OF None] show ?thesis
        by (auto simp: geometryBox_def boxOf_def computeBoundingBox_def Let_def)
    next
      case (Some bb)
      with \<open>geometry (objects h r) = Some g\<close> assms show ?thesis
        by (auto simp: geometryBox_def boxOf_def Let_def)
    qed
  qed
  then show "b1 = (case geometryBox h r of
                 None \<Rightarrow> box
               | Some bb \<Rightarrow> union box (applyMatrix4 bb (matrixWorld (objects h r))))"
    and "cachesFilled h h1" by simp_all
qed

lemma expand_stored:
  "stored h parent n \<Longrightarrow>
     \<exists>h'. expandByObject n (box, h) = (expandG parent (gview h n) box, h') \<and> cachesFilled h h'"
  "storedList h pw ns \<Longrightarrow>
     \<exists>h'. expandByChildren ns (box, h) = (expandGList pw (gviewList h ns) box, h') \<and> cachesFilled h h'"
proof (induction n and ns arbitrary: h parent box and h pw box rule: refsOf_refsOfList.induct)
  case (1 r cs)
  let ?mw = "worldOf parent (compose (position (objects h r)) (rotation (objects h r)) (scale (objects h r)))"
  let ?step = "case geometry (objects h r) of
              None \<Rightarrow> (box, h)
            | Some g \<Rightarrow>
               (let h1 = (if boundingBox (geometries h g) = None then computeBoundingBox g h else h)
                in case boundingBox (geometries h1 g) of
                     None \<Rightarrow> (box, h1)
                   | Some bb \<Rightarrow> (union box (applyMatrix4 bb (matrixWorld (objects h1 r))), h1))"
  from 1(2) have mw: "matrixWorld (objects h r) = ?mw" and sl: "storedList h ?mw cs" by simp_all
  obtain b1 h1 where st: "?step = (b1, h1)" by (cases ?step)
  note n = expand_node [OF st]
  from sl have "storedList h1 ?mw cs" by (simp add: cachesFilled_stored(2) [OF n(2)])
  from 1(1) [OF this, of b1] obtain h' where
    e: "expandByChildren cs (b1, h1) = (expandGList ?mw (gviewList h1 cs) b1, h')"
    and f: "cachesFilled h1 h'" by blast
  have "expandByObject (Node r cs) (box, h) = expandByChildren cs (b1, h1)"
    using st by simp
  also have "\<dots> = (expandGList ?mw (gviewList h cs) b1, h')"
    using e by (simp add: cachesFilled_gview(2) [OF n(2)])
  also have "expandGList ?mw (gviewList h cs) b1 = expandG parent (gview h (Node r cs)) box"
    by (simp add: n(1) mw split: option.split)
  finally show ?case using cachesFilled_trans [OF n(2) f] by blast
next
  case 2
  then show ?case by simp
next
  case (3 c cs)
  from 3(3) have a: "stored h (Some pw) c" and b: "storedList h pw cs" by simp_all
  from 3(1) [OF a, of box] obtain h1 where
    e1: "expandByObject c (box, h) = (expandG (Some pw) (gview h c) box, h1)"
    and f1: "cachesFilled h h1" by blast
  from b have "storedList h1 pw cs" by (simp add: cachesFilled_stored(2) [OF f1])
  from 3(2) [OF this, of "expandG (Some pw) (gview h c) box"] obtain h' where
    e2: "expandByChildren cs (expandG (Some pw) (gview h c) box, h1)
           = (expandGList pw (gviewList h1 cs) (expandG (Some pw) (gview h c) box), h')"
    and f2: "cachesFilled h1 h'" by blast
  have "expandByChildren (c # cs) (box, h) = (expandGList pw (gviewList h (c # cs)) box, h')"
    using e1 e2 by (simp add: cachesFilled_gview(2) [OF f1])
  with cachesFilled_trans [OF f1 f2] show ?case by blast
qed

lemma meshes_stored:
  "stored h parent n \<Longrightarrow>
     \<exists>h'. traverse expandMeshes n (box, f, h)
            = (fst (meshesG parent (gview h n) (box, f)), snd (meshesG parent (gview h n) (box, f)), h')
          \<and> cachesFilled h h'"
  "storedList h pw ns \<Longrightarrow>
     \<exists>h'. traverseChildren expandMeshes ns (box, f, h)
            = (fst (meshesGList pw (gviewList h ns) (box, f)),
               snd (meshesGList pw (gviewList h ns) (box, f)), h')
          \<and> cachesFilled h h'"
proof (induction n and ns arbitrary: h parent box f and h pw box f rule: refsOf_refsOfList.induct)
  case (1 r cs)
  let ?mw = "worldOf parent (compose (position (objects h r)) (rotation (objects h r)) (scale (objects h r)))"
  from 1(2) have sl: "storedList h ?mw cs" by simp
  obtain b1 f1 h1 where st: "expandMeshes (Node r cs) (box, f, h) = (b1, f1, h1)"
    by (cases "expandMeshes (Node r cs) (box, f, h)")
  have n: "(b1, f1) = (if isMesh (objects h r) then (expandG parent (gview h (Node r cs)) box, True)
                       else (box, f)) \<and> cachesFilled h h1"
  proof (cases "isMesh (objects h r)")
    case True
    from expand_stored(1) [OF 1(2), of box] obtain h2 where
      "expandByObject (Node r cs) (box, h) = (expandG parent (gview h (Node r cs)) box, h2)"
      "cachesFilled h h2" by blast
    with st True show ?thesis by (simp add: expandMeshes_def)
  next
    case False
    with st show ?thesis by (simp add: expandMeshes_def)
  qed
  then have c1: "cachesFilled h h1" by simp
  from sl have "storedList h1 ?mw cs" by (simp add: cachesFilled_stored(2) [OF c1])
  from 1(1) [OF this, of b1 f1] obtain h' where
    e: "traverseChildren expandMeshes cs (b1, f1, h1)
          = (fst (meshesGList ?mw (gviewList h1 cs) (b1, f1)),
             snd (meshesGList ?mw (gviewList h1 cs) (b1, f1)), h')"
    and f2: "cachesFilled h1 h'" by blast
  have "traverse expandMeshes (Node r cs) (box, f, h) = traverseChildren expandMeshes cs (b1, f1, h1)"
    using st by simp
  also have "\<dots> = (fst (meshesGList ?mw (gviewList h cs) (b1, f1)),
                     snd (meshesGList ?mw (gviewList h cs) (b1, f1)), h')"
    using e by (simp add: cachesFilled_gview(2) [OF c1])
  also have "meshesGList ?mw (gviewList h cs) (b1, f1) = meshesG parent (gview h (Node r cs)) (box, f)"
    using n by (simp del: expandG.simps)
  finally show ?case using cachesFilled_trans [OF c1 f2] by blast
next
  case 2
  then show ?case by simp
next
  case (3 c cs)
  from 3(3) have a: "stored h (Some pw) c" and b: "storedList h pw cs" by simp_all
  let ?r1 = "meshesG (Some pw) (gview h c) (box, f)"
  from 3(1) [OF a, of box f] obtain h1 where
    e1: "traverse expandMeshes c (box, f, h) = (fst ?r1, snd ?r1, h1)"
    and f1: "cachesFilled h h1" by blast
  from b have "storedList h1 pw cs" by (simp add: cachesFilled_stored(2) [OF f1])
  from 3(2) [OF this, of "fst ?r1" "snd ?r1"] obtain h' where
    e2: "traverseChildren expandMeshes cs (fst ?r1, snd ?r1, h1)
           = (fst (meshesGList pw (gviewList h1 cs) (fst ?r1, snd ?r1)),
              snd (meshesGList pw (gviewList h1 cs) (fst ?r1, snd ?r1)), h')"
    and f2: "cachesFilled h1 h'" by blast
  have "traverseChildren expandMeshes (c # cs) (box, f, h)
          = (fst (meshesGList pw (gviewList h (c # cs)) (box, f)),
             snd (meshesGList pw (gviewList h (c # cs)) (box, f)), h')"
    using e1 e2 by (simp add: cachesFilled_gview(2) [OF f1])
  with cachesFilled_trans [OF f1 f2] show ?case by blast
qed

lemma computeBox_stored:
  assumes "stored h None n"
  shows "\<exists>h'. computeBox n h = (computeBoxG (gview h n), h') \<and> cachesFilled h h'"
proof -
  let ?r = "meshesG None (gview h n) (EmptyBox, False)"
  from meshes_stored(1) [OF assms, of EmptyBox False] obtain h1 where
    t: "traverse expandMeshes n (EmptyBox, False, h) = (fst ?r, snd ?r, h1)"
    and f1: "cachesFilled h h1" by blast
  show ?thesis
  proof (cases "snd ?r")
    case True
    with t f1 show ?thesis by (simp add: computeBox_def computeBoxG_def split_beta)
  next
    case False
    from assms have "stored h1 None n" by (simp add: cachesFilled_stored(1) [OF f1])
    from expand_stored(1) [OF this, of EmptyBox] obtain h' where
      e: "expandByObject n (EmptyBox, h1) = (expandG None (gview h1 n) EmptyBox, h')"
      and f2: "cachesFilled h1 h'" by blast
    from False t e have "computeBox n h = (computeBoxG (gview h n), h')"
      by (simp add: computeBox_def computeBoxG_def split_beta setFromObject_def
          cachesFilled_gview(1) [OF f1])
    with cachesFilled_trans [OF f1 f2] show ?thesis by blast
  qed
qed








lemma meshesG_flag:
  "snd (meshesG parent g (box, f)) = (f \<or> anyMeshG g)"
  "snd (meshesGList pw gs (box, f)) = (f \<or> anyMeshGList gs)"
proof (induction g and gs arbitrary: parent box f and pw box f rule: anyMeshG_anyMeshGList.induct)
  case (1 im g m cs)
  then show ?case by (cases im) simp_all
next
  case 2
  then show ?case by simp
next
  case (3 c cs)
  obtain b1 f1 where s: "meshesG (Some pw) c (box, f) = (b1, f1)"
    by (cases "meshesG (Some pw) c (box, f)")
  from 3(1) [of "Some pw" box f] s have "f1 = (f \<or> anyMeshG c)" by simp
  with 3(2) [of pw b1 f1] s show ?case by simp
qed

lemma root_as_child:
  "expandG None (GNode im g m cs) box = expandG (Some m) (GNode im g id cs) box"
  "meshesG None (GNode im g m cs) s = meshesG (Some m) (GNode im g id cs) s"
  by (cases g; simp add: worldOf_def)+


lemma isEmpty_translateBox [simp]: "isEmpty (translateBox t b) = isEmpty b"
  by (cases b) (simp_all add: addVectors_def)



lemma getSize_translateBox [simp]: "getSize (translateBox t b) = getSize b"
  by (cases b) (simp_all add: getSize_def addVectors_def subVectors_def)

lemma compose_identity: "compose (Vector3 0 0 0) (Vector3 0 0 0) (Vector3 1 1 1) = id"
  by (rule ext) (simp add: compose_def makeRotationFromEuler_def addVectors_def)


lemma ref_in_refs [simp]: "ref n \<in> set (refsOf n)"
  by (cases n) simp


lemma anyMeshG_gview:
  "anyMeshG (gview h n) = (\<exists>r \<in> set (refsOf n). isMesh (objects h r))"
  "anyMeshGList (gviewList h ns) = (\<exists>r \<in> set (refsOfList ns). isMesh (objects h r))"
  by (induction n and ns rule: refsOf_refsOfList.induct) auto


lemma validG_resetRootG [simp]: "validG (resetRootG g) = validG g"
  by (cases g) simp

lemma meshesOnlyG_resetRootG [simp]: "meshesOnlyG (resetRootG g) = meshesOnlyG g"
  by (cases g) simp

lemma anyMeshG_resetRootG [simp]: "anyMeshG (resetRootG g) = anyMeshG g"
  by (cases g) simp


lemma unchangedButMatrices_D:
  assumes "unchangedButMatrices A h h'"
  shows "geoSame (objects h r) (objects h' r)" "matSame (objects h r) (objects h' r)"
    "materials h' = materials h" "nextMaterial h' = nextMaterial h" "nextObject h' = nextObject h"
    "r \<notin> A \<Longrightarrow> objects h' r = objects h r" "geometries h' = geometries h"
  using assms unfolding unchangedButMatrices_def by blast+

lemma resetRoot_simps [simp]:
  "nextObject (resetRoot n h) = nextObject h"
  "materials (resetRoot n h) = materials h"
  "nextMaterial (resetRoot n h) = nextMaterial h"
  "geometries (resetRoot n h) = geometries h"
  "objects (resetRoot n h) x =
     (if x = ref n
      then (objects h x)\<lparr>position := Vector3 0 0 0, rotation := Vector3 0 0 0, scale := Vector3 1 1 1\<rparr>
      else objects h x)"
  by (simp_all add: resetRoot_def)

lemma gview_resetRoot:
  assumes "r \<notin> set (refsOfList cs)"
  shows "gview (resetRoot (Node r cs) h) (Node r cs)
    = GNode (isMesh (objects h r)) (geometryBox h r) id (gviewList h cs)"
proof -
  have "\<forall>x \<in> set (refsOfList cs). geoSame (objects h x) (objects (resetRoot (Node r cs) h) x)"
    using assms by auto
  from gview_same(2) [OF _ this] show ?thesis by (simp add: compose_identity geometryBox_def)
qed

section \<open>The box as the bounds of corner points\<close>

lemma boundsOfPoints_Nil [simp]: "boundsOfPoints [] = EmptyBox"
  by (simp add: boundsOfPoints_def)

lemma boundsOfPoints_single [simp]: "boundsOfPoints [p] = Box3 p p"
  by (simp add: boundsOfPoints_def)















section \<open>The effect as a whole\<close>

lemma freshCopy_source:
  "materials s0 = materials h \<Longrightarrow> nextMaterial s0 = nextMaterial h \<Longrightarrow>
     freshCopy s0 f = freshCopy h f"
  by (rule ext)+ (simp add: freshCopy_def)

lemma materialsSetUp_source:
  assumes "materials s0 = materials h" "nextMaterial s0 = nextMaterial h"
  shows "materialsSetUp s0 f a b = materialsSetUp h f a b"
  by (cases a; cases b) (simp_all add: freshCopy_source [OF assms])

lemma setUp_source:
  assumes "setUp s0 f r' r''" "objects s0 r' = objects h r"
    and "materials s0 = materials h" "nextMaterial s0 = nextMaterial h"
  shows "setUp h f r r''"
proof -
  have m: "materialsSetUp s0 f a b = materialsSetUp h f a b" for a b
    by (rule materialsSetUp_source [OF assms(3,4)])
  from assms(1) show ?thesis unfolding setUp_def assms(2) m .
qed

lemma prepare_unfold:
  assumes "prepare scene h = (clone, h6)"
  obtains h1 where "cloneRecursive scene h = (clone, h1)"
    and "h6 = updateMatrixWorld None clone (resetRoot clone (traverse materialSetup clone h1))"
proof -
  obtain c h1 where c: "cloneRecursive scene h = (c, h1)" by (cases "cloneRecursive scene h")
  with assms have "c = clone"
    and "h6 = updateMatrixWorld None clone (resetRoot clone (traverse materialSetup clone h1))"
    by (auto simp: prepare_def Let_def resetRoot_def)
  with c that show ?thesis by simp
qed

lemma prepare_facts:
  assumes p: "prepare scene h = (clone, h6)"
  shows "refsOf clone = [nextObject h ..< nextObject h6]"
    and "\<forall>r < nextObject h. objects h6 r = objects h r"
    and "\<forall>m < nextMaterial h. materials h6 m = materials h m"
    and "nextMaterial h \<le> nextMaterial h6"
    and "nextObject h \<le> nextObject h6"
    and "geometries h6 = geometries h"
    and "position (objects h6 (ref clone)) = Vector3 0 0 0"
    and "rotation (objects h6 (ref clone)) = Vector3 0 0 0"
    and "scale (objects h6 (ref clone)) = Vector3 1 1 1"
    and "stored h6 None clone"
    and "allocated h scene \<Longrightarrow> gview h6 clone = resetRootG (gview h scene)"
    and "allocated h scene \<Longrightarrow> materialsAllocated h scene \<Longrightarrow>
           list_all2 (setUp h h6) (refsOf scene) (refsOf clone)"
proof -
  from p obtain h1 where c: "cloneRecursive scene h = (clone, h1)"
    and h6: "h6 = updateMatrixWorld None clone (resetRoot clone (traverse materialSetup clone h1))"
    by (rule prepare_unfold)
  let ?A = "set (refsOf clone)"
  let ?k = "nextMaterial h"
  let ?h2 = "traverse materialSetup clone h1"
  let ?h5 = "resetRoot clone ?h2"
  note b = clone_basic(1) [OF c]
  from b have k1: "?k \<le> nextMaterial h1" by simp
  have p2: "preserved ?A ?k h1 ?h2"
    by (rule traverse_preserved(1) [OF materialSetup_preserved]) (simp_all add: k1)
  have u6: "unchangedButMatrices ?A ?h5 h6"
    unfolding h6 by (rule updateMatrixWorld_frame(1))
  have fresh: "\<forall>r < nextObject h. r \<notin> ?A" using b by simp
  show r: "refsOf clone = [nextObject h ..< nextObject h6]"
    using b p2 unchangedButMatrices_D(5) [OF u6] by (simp add: preserved_def)
  have fresh_root: "\<forall>r < nextObject h. r \<noteq> ref clone"
    using fresh ref_in_refs [of clone] by blast
  show "\<forall>r < nextObject h. objects h6 r = objects h r"
  proof (intro allI impI)
    fix r assume lt: "r < nextObject h"
    with fresh have n: "r \<notin> ?A" by simp
    with unchangedButMatrices_D(6) [OF u6] have "objects h6 r = objects ?h5 r" by blast
    also have "\<dots> = objects ?h2 r" using fresh_root lt by simp
    also have "\<dots> = objects h1 r" using p2 n by (simp add: preserved_def)
    also have "\<dots> = objects h r" using b lt by simp
    finally show "objects h6 r = objects h r" .
  qed
  show "\<forall>m < ?k. materials h6 m = materials h m"
    using b p2 unchangedButMatrices_D(3) [OF u6] by (simp add: preserved_def)
  show "?k \<le> nextMaterial h6"
    using b p2 unchangedButMatrices_D(4) [OF u6] by (simp add: preserved_def)
  show "nextObject h \<le> nextObject h6"
    using b p2 unchangedButMatrices_D(5) [OF u6] by (simp add: preserved_def)
  show g6: "geometries h6 = geometries h"
    using b p2 unchangedButMatrices_D(7) [OF u6] by (simp add: preserved_def)
  have g6: "geoSame (objects ?h5 (ref clone)) (objects h6 (ref clone))"
    by (rule unchangedButMatrices_D(1) [OF u6])
  then show "position (objects h6 (ref clone)) = Vector3 0 0 0"
    and "rotation (objects h6 (ref clone)) = Vector3 0 0 0"
    and "scale (objects h6 (ref clone)) = Vector3 1 1 1"
    by (simp_all add: geoSame_def)
  have d: "distinct (refsOf clone)" using b by simp
  show "stored h6 None clone"
    unfolding h6 by (rule updateMatrixWorld_stored(1) [OF d])
  show "gview h6 clone = resetRootG (gview h scene)" if al: "allocated h scene"
  proof -
    obtain r' cs' where cl: "clone = Node r' cs'" by (cases clone)
    from d cl have nr: "r' \<notin> set (refsOfList cs')" by simp
    have "\<forall>r \<in> ?A. geoSame (objects ?h5 r) (objects h6 r)"
      using unchangedButMatrices_D(1) [OF u6] by blast
    from gview_same(1) [OF unchangedButMatrices_D(7) [OF u6] this]
    have "gview h6 clone = gview ?h5 clone" .
    also have "gview ?h5 clone = GNode (isMesh (objects ?h2 r')) (geometryBox ?h2 r') id
                (gviewList ?h2 cs')"
      unfolding cl by (rule gview_resetRoot [OF nr])
    also have "\<dots> = resetRootG (gview ?h2 clone)" by (simp add: cl)
    also have "gview ?h2 clone = gview h1 clone"
      using p2 by (intro gview_same(1)) (simp_all add: preserved_def)
    also have "gview h1 clone = gview h scene"
      using clone_gview(1) [OF c] al by (simp add: allocated_def)
    finally show ?thesis .
  qed
  show "list_all2 (setUp h h6) (refsOf scene) (refsOf clone)"
    if al: "allocated h scene" and ma: "materialsAllocated h scene"
  proof -
    from al have lt: "\<forall>r \<in> set (refsOf scene). r < nextObject h" by (simp add: allocated_def)
    note co = clone_objects(1) [OF c lt]
    have src: "\<exists>r \<in> set (refsOf scene). objects h1 r' = objects h r" if "r' \<in> ?A" for r'
    proof -
      from that obtain i where i: "i < length (refsOf clone)" "refsOf clone ! i = r'"
        by (auto simp: in_set_conv_nth)
      from list_all2_nthD2 [OF co i(1)] i(2)
      have "objects h1 r' = objects h (refsOf scene ! i)" by simp
      moreover have "refsOf scene ! i \<in> set (refsOf scene)"
        using i(1) list_all2_lengthD [OF co] by simp
      ultimately show ?thesis by blast
    qed
    have ma1: "\<forall>r' \<in> ?A. \<forall>x \<in> set (materialRefs (material (objects h1 r'))). x < nextMaterial h1"
    proof (intro ballI)
      fix r' x assume r': "r' \<in> ?A" and x: "x \<in> set (materialRefs (material (objects h1 r')))"
      from src [OF r'] obtain r where "r \<in> set (refsOf scene)" "objects h1 r' = objects h r"
        by blast
      with ma x b show "x < nextMaterial h1" by (auto simp: materialsAllocated_def)
    qed
    have s2: "\<forall>r' \<in> ?A. setUp h1 ?h2 r' r'"
      by (rule traverse_setUp(1) [OF d _ _ _ ma1]) simp_all
    have s6: "setUp h1 h6 r' r'" if "r' \<in> ?A" for r'
    proof (rule setUp_later)
      from s2 that show "setUp h1 ?h2 r' r'" by simp
      have "matSame (objects ?h2 r') (objects ?h5 r')" by (simp add: matSame_def)
      moreover have "matSame (objects ?h5 r') (objects h6 r')"
        by (rule unchangedButMatrices_D(2) [OF u6])
      ultimately show "matSame (objects ?h2 r') (objects h6 r')" by (simp add: matSame_def)
      show "\<forall>x < nextMaterial ?h2. materials h6 x = materials ?h2 x"
        using unchangedButMatrices_D(3) [OF u6] by simp
      show "nextMaterial ?h2 \<le> nextMaterial h6"
        using unchangedButMatrices_D(4) [OF u6] by simp
    qed
    show ?thesis
    proof (rule list.rel_mono_strong [OF co])
      fix r r' assume "r' \<in> ?A" and o: "objects h1 r' = objects h r"
      from setUp_source [OF s6 [OF this(1)] o] b show "setUp h h6 r r'" by simp
    qed
  qed
qed

text \<open>The effect, taken apart.\<close>

lemma sceneEffect_cases:
  assumes "sceneEffect (Some scene) st h = (st', h')"
  obtains clone h1 h2 where "prepare scene h = (clone, h1)"
    and "computeBox clone h1 = (computeBoxG (gview h1 clone), h2)"
    and "cachesFilled h1 h2"
    and "st' = st\<lparr>modelScale := jsDivide targetSize
                 (jsOr (max (max (vx (getSize (computeBoxG (gview h1 clone))))
                                 (vy (getSize (computeBoxG (gview h1 clone)))))
                            (vz (getSize (computeBoxG (gview h1 clone))))) 1),
               processedScene := Some clone\<rparr>"
    and "h' = updateObject (ref clone)
           (\<lambda>ob. ob\<lparr>position := subVectors (position ob) (getCenter (computeBoxG (gview h1 clone)))\<rparr>) h2"
proof -
  obtain clone h1 where p: "prepare scene h = (clone, h1)" by (cases "prepare scene h")
  from computeBox_stored [OF prepare_facts(10) [OF p]] obtain h2 where
    c: "computeBox clone h1 = (computeBoxG (gview h1 clone), h2)" and f: "cachesFilled h1 h2"
    by blast
  from assms p c have "st' = st\<lparr>modelScale := jsDivide targetSize
                 (jsOr (max (max (vx (getSize (computeBoxG (gview h1 clone))))
                                 (vy (getSize (computeBoxG (gview h1 clone)))))
                            (vz (getSize (computeBoxG (gview h1 clone))))) 1),
               processedScene := Some clone\<rparr>"
    and "h' = updateObject (ref clone)
           (\<lambda>ob. ob\<lparr>position := subVectors (position ob) (getCenter (computeBoxG (gview h1 clone)))\<rparr>) h2"
    by (auto simp: sceneEffect_def Let_def)
  with p c f that show ?thesis by blast
qed

lemma sceneEffect_processedScene:
  "processedScene (fst (sceneEffect (Some scene) st h)) = Some (fst (prepare scene h))"
  by (simp add: sceneEffect_def split_beta Let_def)

lemma getSize_nonneg:
  "0 \<le> vx (getSize b) \<and> 0 \<le> vy (getSize b) \<and> 0 \<le> vz (getSize b)"
  by (cases b) (auto simp: getSize_def subVectors_def)

lemma effect_frame:
  assumes "sceneEffect (Some scene) st h = (st', h')"
  shows "\<forall>r < nextObject h. objects h' r = objects h r"
    and "\<forall>m < nextMaterial h. materials h' m = materials h m"
    and "nextObject h \<le> nextObject h'"
    and "nextMaterial h \<le> nextMaterial h'"
    and "\<forall>g. boxCached (geometries h g) (geometries h' g)"
proof -
  from assms obtain clone h1 h2 where p: "prepare scene h = (clone, h1)"
    and f: "cachesFilled h1 h2"
    and h': "h' = updateObject (ref clone)
           (\<lambda>ob. ob\<lparr>position := subVectors (position ob) (getCenter (computeBoxG (gview h1 clone)))\<rparr>) h2"
    by (rule sceneEffect_cases)
  note pf = prepare_facts [OF p]
  from f have e: "objects h2 = objects h1" "materials h2 = materials h1"
    "nextObject h2 = nextObject h1" "nextMaterial h2 = nextMaterial h1"
    "\<forall>g. boxCached (geometries h1 g) (geometries h2 g)"
    by (simp_all add: cachesFilled_def)
  have "ref clone \<in> set (refsOf clone)" by simp
  with pf(1) have "nextObject h \<le> ref clone" by simp
  then show "\<forall>r < nextObject h. objects h' r = objects h r"
    using pf(2) e by (simp add: h')
  show "\<forall>m < nextMaterial h. materials h' m = materials h m" using pf(3) e by (simp add: h')
  show "nextObject h \<le> nextObject h'" using pf(5) e by (simp add: h')
  show "nextMaterial h \<le> nextMaterial h'" using pf(4) e by (simp add: h')
  show "\<forall>g. boxCached (geometries h g) (geometries h' g)" using pf(6) e by (simp add: h')
qed

lemma effect_result:
  assumes "sceneEffect (Some scene) st h = (st', h')" "processedScene st' = Some clone"
    and al: "allocated h scene"
  shows "modelScale st' = jsDivide targetSize
           (jsOr (max (max (vx (getSize (computeBoxG (resetRootG (gview h scene)))))
                          (vy (getSize (computeBoxG (resetRootG (gview h scene))))))
                     (vz (getSize (computeBoxG (resetRootG (gview h scene)))))) 1)"
    and "position (objects h' (ref clone))
           = subVectors (Vector3 0 0 0) (getCenter (computeBoxG (resetRootG (gview h scene))))"
proof -
  from assms(1) obtain c h1 h2 where p: "prepare scene h = (c, h1)"
    and f: "cachesFilled h1 h2"
    and st': "st' = st\<lparr>modelScale := jsDivide targetSize
                 (jsOr (max (max (vx (getSize (computeBoxG (gview h1 c))))
                                 (vy (getSize (computeBoxG (gview h1 c)))))
                            (vz (getSize (computeBoxG (gview h1 c))))) 1),
               processedScene := Some c\<rparr>"
    and h': "h' = updateObject (ref c)
           (\<lambda>ob. ob\<lparr>position := subVectors (position ob) (getCenter (computeBoxG (gview h1 c)))\<rparr>) h2"
    by (rule sceneEffect_cases)
  from st' assms(2) have c: "c = clone" by simp
  note pf = prepare_facts [OF p]
  have g: "gview h1 c = resetRootG (gview h scene)" by (rule pf(11) [OF al])
  from f have o: "objects h2 = objects h1" by (simp add: cachesFilled_def)
  show "modelScale st' = jsDivide targetSize
           (jsOr (max (max (vx (getSize (computeBoxG (resetRootG (gview h scene)))))
                          (vy (getSize (computeBoxG (resetRootG (gview h scene))))))
                     (vz (getSize (computeBoxG (resetRootG (gview h scene)))))) 1)"
    by (simp add: st' g)
  show "position (objects h' (ref clone))
           = subVectors (Vector3 0 0 0) (getCenter (computeBoxG (resetRootG (gview h scene))))"
    using pf(7) by (simp add: h' g o c [symmetric])
qed

section \<open>Properties of the normalization\<close>


lemma prepare_clone: "fst (prepare scene h) = fst (cloneRecursive scene h)"
  by (simp add: prepare_def split_beta Let_def)




lemma validG_moveRootG [simp]: "validG (moveRootG t g) = validG g"
  by (cases g) simp

lemma meshesOnlyG_moveRootG [simp]: "meshesOnlyG (moveRootG t g) = meshesOnlyG g"
  by (cases g) simp



lemma prepared_box:
  assumes "prepare scene h = (clone, h1)" "allocated h scene"
  shows "fst (computeBox clone h1) = computeBoxG (resetRootG (gview h scene))"
  using computeBox_stored [OF prepare_facts(10) [OF assms(1)]] prepare_facts(11) [OF assms]
  by auto



lemmas ex_defs = exObject_def exMaterial_def exGeometry_def exHeap_def exScene_def
  exGroupHeap_def exUncachedHeap_def exPointsHeap_def exPointsScene_def exPointsClone_def

lemmas geo_defs = geometryBox_def boxOf_def applyMatrix4_def setFromPoints_def compose_def
  makeRotationFromEuler_def addVectors_def subVectors_def multiplyScalar_def minV_def maxV_def
  getSize_def getCenter_def worldOf_def cornersG_def translate_def computeBoxG_def

lemma ex_allocated: "allocated exHeap exScene"
  by (simp add: allocated_def ex_defs)



lemma ex_clone: "fst (prepare exScene exHeap) = Node 2 [Node 3 []]"
  by (simp add: prepare_clone ex_defs)






lemma exPoints_allocated: "allocated exPointsHeap exPointsScene"
  by (simp add: allocated_def ex_defs)

lemma exPoints_clone: "fst (prepare exPointsScene exPointsHeap) = exPointsClone"
  by (simp add: prepare_clone ex_defs)


lemma exPoints_effect:
  "sceneEffect (Some exPointsScene) initialModel exPointsHeap
     = (fst (sceneEffect (Some exPointsScene) initialModel exPointsHeap), exPointsAfter)"
  "processedScene (fst (sceneEffect (Some exPointsScene) initialModel exPointsHeap)) = Some exPointsClone"
  by (simp_all add: exPointsAfter_def sceneEffect_processedScene exPoints_clone)







lemma traverse_noMesh:
  "\<forall>r \<in> set (refsOf n). \<not> isMesh (objects h r) \<Longrightarrow>
     traverse expandMeshes n (b, f, h) = (b, f, h)"
  "\<forall>r \<in> set (refsOfList ns). \<not> isMesh (objects h r) \<Longrightarrow>
     traverseChildren expandMeshes ns (b, f, h) = (b, f, h)"
  by (induction n and ns rule: refsOf_refsOfList.induct) (simp_all add: expandMeshes_def)

lemma prepare_noMesh:
  assumes "prepare scene h = (clone, h1)" "allocated h scene"
    and "\<not> (\<exists>r \<in> set (refsOf scene). isMesh (objects h r))"
  shows "computeBox clone h1 = setFromObject clone h1"
proof -
  have "anyMeshG (gview h1 clone) = anyMeshG (gview h scene)"
    by (simp add: prepare_facts(11) [OF assms(1,2)])
  with assms(3) have "\<forall>r \<in> set (refsOf clone). \<not> isMesh (objects h1 r)"
    by (simp add: anyMeshG_gview(1))
  from traverse_noMesh(1) [OF this] show ?thesis by (simp add: computeBox_def)
qed

lemma exGroup_scale:
  "modelScale (fst (sceneEffect (Some (Node 0 [])) initialModel exGroupHeap)) = Double 4"
proof -
  have al: "allocated exGroupHeap (Node 0 [])" by (simp add: allocated_def ex_defs)
  have "computeBoxG (resetRootG (gview exGroupHeap (Node 0 []))) = EmptyBox"
    by (simp add: ex_defs geo_defs)
  with effect_result(1) [OF prod.collapse [symmetric] sceneEffect_processedScene al, of initialModel]
  show ?thesis by (simp add: getSize_def scaleFactor_zero)
qed

text \<open>
  C2, as the code has it. For a scene that exists in the store and has no mesh, when the
  box over the whole graph has size zero on every axis: the box of the effect is that
  fallback box, the divisor \<open>maxDim || 1\<close> is 1, so nothing is divided by zero, and the
  published scale factor is the double 4 (the target size over 1).
\<close>

theorem degenerate_scale:
  assumes "allocated h scene"
    and "\<not> (\<exists>r \<in> set (refsOf scene). isMesh (objects h r))"
    and "prepare scene h = (clone, h1)"
    and "getSize (fst (setFromObject clone h1)) = Vector3 0 0 0"
    and "sceneEffect (Some scene) st h = (st', h2)"
  shows "computeBox clone h1 = setFromObject clone h1 \<and>
         jsOr (max (max (vx (getSize (fst (computeBox clone h1))))
                        (vy (getSize (fst (computeBox clone h1)))))
                   (vz (getSize (fst (computeBox clone h1))))) 1 = 1 \<and>
         modelScale st' = Double 4"
proof -
  from prepare_noMesh [OF assms(3,1,2)]
  have b: "computeBox clone h1 = setFromObject clone h1" .
  obtain box h' where s: "setFromObject clone h1 = (box, h')" by (cases "setFromObject clone h1")
  with assms(4) have z: "getSize box = Vector3 0 0 0" by simp
  from assms(5) have "modelScale st' = jsDivide targetSize (jsOr 0 1)"
    by (auto simp: sceneEffect_def assms(3) b s z Let_def)
  moreover have "jsOr 0 1 = (1::real)" by (simp add: jsOr_def)
  ultimately show ?thesis using b s z scaleFactor_zero by simp
qed

theorem degenerate_scale_witness:
  "modelScale (fst (sceneEffect (Some (Node 0 [])) initialModel exGroupHeap)) = Double 4"
proof -
  have p: "prepare (Node 0 []) exGroupHeap
      = (fst (prepare (Node 0 []) exGroupHeap), snd (prepare (Node 0 []) exGroupHeap))" by simp
  have al: "allocated exGroupHeap (Node 0 [])" by (simp add: allocated_def ex_defs)
  have nm: "\<not> (\<exists>r \<in> set (refsOf (Node 0 [])). isMesh (objects exGroupHeap r))"
    by (simp add: ex_defs)
  have "fst (computeBox (fst (prepare (Node 0 []) exGroupHeap)) (snd (prepare (Node 0 []) exGroupHeap)))
      = EmptyBox"
    using prepared_box [OF p al] by (simp add: ex_defs geo_defs)
  then have z: "getSize (fst (setFromObject (fst (prepare (Node 0 []) exGroupHeap))
                (snd (prepare (Node 0 []) exGroupHeap)))) = Vector3 0 0 0"
    by (simp add: prepare_noMesh [OF p al nm] getSize_def)
  from degenerate_scale [OF al nm p z prod.collapse [symmetric], of initialModel]
  show ?thesis by simp
qed

text \<open>
  C2, as stated, fails: for a lone group without geometry there is no mesh, the fallback
  box is empty and its size is zero, and the published scale factor is 4, not 1.
\<close>

theorem degenerate_scale_counterexample:
  "\<not> isMesh (objects exGroupHeap 0) \<and>
   getSize (fst (setFromObject (fst (prepare (Node 0 []) exGroupHeap))
              (snd (prepare (Node 0 []) exGroupHeap)))) = Vector3 0 0 0 \<and>
   modelScale (fst (sceneEffect (Some (Node 0 [])) initialModel exGroupHeap)) \<noteq> Double 1"
proof -
  have p: "prepare (Node 0 []) exGroupHeap
      = (fst (prepare (Node 0 []) exGroupHeap), snd (prepare (Node 0 []) exGroupHeap))" by simp
  have al: "allocated exGroupHeap (Node 0 [])" by (simp add: allocated_def ex_defs)
  have nm: "\<not> (\<exists>r \<in> set (refsOf (Node 0 [])). isMesh (objects exGroupHeap r))"
    by (simp add: ex_defs)
  have "fst (computeBox (fst (prepare (Node 0 []) exGroupHeap)) (snd (prepare (Node 0 []) exGroupHeap)))
      = EmptyBox"
    using prepared_box [OF p al] by (simp add: ex_defs geo_defs)
  then have z: "getSize (fst (setFromObject (fst (prepare (Node 0 []) exGroupHeap))
                (snd (prepare (Node 0 []) exGroupHeap)))) = Vector3 0 0 0"
    by (simp add: prepare_noMesh [OF p al nm] getSize_def)
  from nm z exGroup_scale show ?thesis by simp
qed

lemma list_all2_setD2:
  "list_all2 P xs ys \<Longrightarrow> y \<in> set ys \<Longrightarrow> \<exists>x \<in> set xs. P x y"
  by (induction rule: list_all2_induct) auto

lemma materialsSetUp_refs:
  assumes "materialsSetUp h h' a b" "m' \<in> set (materialRefs b)"
  shows "\<exists>m \<in> set (materialRefs a). freshCopy h h' m m'"
  using assms by (cases a; cases b) (auto dest: list_all2_setD2)

lemma effect_setUp:
  assumes e: "sceneEffect (Some scene) st h = (st', h')" and c: "processedScene st' = Some clone"
    and al: "allocated h scene" and ma: "materialsAllocated h scene"
  shows "list_all2 (setUp h h') (refsOf scene) (refsOf clone)"
proof -
  from e obtain c' h1 h2 where p: "prepare scene h = (c', h1)"
    and f: "cachesFilled h1 h2"
    and st': "st' = st\<lparr>modelScale := jsDivide targetSize
                 (jsOr (max (max (vx (getSize (computeBoxG (gview h1 c'))))
                                 (vy (getSize (computeBoxG (gview h1 c')))))
                            (vz (getSize (computeBoxG (gview h1 c'))))) 1),
               processedScene := Some c'\<rparr>"
    and h': "h' = updateObject (ref c')
           (\<lambda>ob. ob\<lparr>position := subVectors (position ob) (getCenter (computeBoxG (gview h1 c')))\<rparr>) h2"
    by (rule sceneEffect_cases)
  from st' c have cc: "c' = clone" by simp
  from f have o: "objects h2 = objects h1" "materials h2 = materials h1"
    "nextMaterial h2 = nextMaterial h1" by (simp_all add: cachesFilled_def)
  have "setUp h h' r r'" if "setUp h h1 r r'" for r r'
    by (rule setUp_later [OF that]) (simp_all add: h' o matSame_def)
  with prepare_facts(12) [OF p al ma] show ?thesis
    unfolding cc by (rule list_all2_mono)
qed

text \<open>
  C4, as the code has it. For a scene that exists in the store with its materials: object
  by object, the copy after the effect is the source after the material setup. A mesh of
  the copy casts and receives shadows, and has as many materials as its source, each one a
  material created by the effect that is the copy of the corresponding material of the
  source made opaque (not transparent, opacity 1), normally blended and double-sided. An
  object that is not a mesh keeps its shadow flags and the very materials of the source.
  No material that existed before is changed.
\<close>

theorem materials_sanitized:
  assumes "sceneEffect (Some scene) st h = (st', h')"
    and "processedScene st' = Some clone"
    and "allocated h scene"
    and "materialsAllocated h scene"
  shows "list_all2 (setUp h h') (refsOf scene) (refsOf clone) \<and>
         (\<forall>m < nextMaterial h. materials h' m = materials h m) \<and>
         (\<forall>r \<in> set (refsOf clone). isMesh (objects h' r) \<longrightarrow>
            castShadow (objects h' r) \<and> receiveShadow (objects h' r) \<and>
            (\<forall>m \<in> set (materialRefs (material (objects h' r))).
               nextMaterial h \<le> m \<and> m < nextMaterial h' \<and>
               transparent (materials h' m) = False \<and> opacity (materials h' m) = 1 \<and>
               blending (materials h' m) = NormalBlending \<and> side (materials h' m) = DoubleSide))"
proof -
  note s = effect_setUp [OF assms]
  have "castShadow (objects h' r') \<and> receiveShadow (objects h' r') \<and>
            (\<forall>m \<in> set (materialRefs (material (objects h' r'))).
               nextMaterial h \<le> m \<and> m < nextMaterial h' \<and>
               transparent (materials h' m) = False \<and> opacity (materials h' m) = 1 \<and>
               blending (materials h' m) = NormalBlending \<and> side (materials h' m) = DoubleSide)"
    if r': "r' \<in> set (refsOf clone)" and im: "isMesh (objects h' r')" for r'
  proof -
    from list_all2_setD2 [OF s r'] obtain r where u: "setUp h h' r r'" by blast
    with im have a: "castShadow (objects h' r')" "receiveShadow (objects h' r')"
      "materialsSetUp h h' (material (objects h r)) (material (objects h' r'))"
      by (simp_all add: setUp_def)
    from materialsSetUp_refs [OF a(3)] a(1,2) show ?thesis
      by (auto simp: freshCopy_def forcedCopy_def)
  qed
  with s effect_frame(2) [OF assms(1)] show ?thesis by blast
qed

lemma ex_effect:
  "processedScene (fst (sceneEffect (Some exScene) initialModel exHeap)) = Some (Node 2 [Node 3 []])"
  by (simp add: sceneEffect_processedScene ex_clone)

lemma ex_materialsAllocated: "materialsAllocated exHeap exScene"
  by (simp add: materialsAllocated_def ex_defs)

theorem materials_sanitized_witness:
  "castShadow (objects (snd (sceneEffect (Some exScene) initialModel exHeap)) 3) \<and>
   receiveShadow (objects (snd (sceneEffect (Some exScene) initialModel exHeap)) 3) \<and>
   (\<exists>m. material (objects (snd (sceneEffect (Some exScene) initialModel exHeap)) 3) = SingleMaterial m \<and>
        nextMaterial exHeap \<le> m \<and>
        name (materials (snd (sceneEffect (Some exScene) initialModel exHeap)) m) = ''glass'' \<and>
        transparent (materials (snd (sceneEffect (Some exScene) initialModel exHeap)) m) = False \<and>
        opacity (materials (snd (sceneEffect (Some exScene) initialModel exHeap)) m) = 1 \<and>
        blending (materials (snd (sceneEffect (Some exScene) initialModel exHeap)) m) = NormalBlending \<and>
        side (materials (snd (sceneEffect (Some exScene) initialModel exHeap)) m) = DoubleSide) \<and>
   materials (snd (sceneEffect (Some exScene) initialModel exHeap)) 0 = exMaterial"
proof -
  let ?h' = "snd (sceneEffect (Some exScene) initialModel exHeap)"
  note t = materials_sanitized [OF prod.collapse [symmetric] ex_effect ex_allocated
      ex_materialsAllocated]
  from t have "setUp exHeap ?h' 1 3" by (simp add: exScene_def)
  then have a: "castShadow (objects ?h' 3)" "receiveShadow (objects ?h' 3)"
    "materialsSetUp exHeap ?h' (SingleMaterial 0) (material (objects ?h' 3))"
    by (simp_all add: setUp_def ex_defs)
  from a(3) obtain m where m: "material (objects ?h' 3) = SingleMaterial m" "freshCopy exHeap ?h' 0 m"
    by (cases "material (objects ?h' 3)") simp_all
  from m(2) have "nextMaterial exHeap \<le> m \<and> name (materials ?h' m) = ''glass'' \<and>
      transparent (materials ?h' m) = False \<and> opacity (materials ?h' m) = 1 \<and>
      blending (materials ?h' m) = NormalBlending \<and> side (materials ?h' m) = DoubleSide"
    by (simp add: freshCopy_def forcedCopy_def ex_defs)
  with m(1) have b: "\<exists>m. material (objects ?h' 3) = SingleMaterial m \<and>
        nextMaterial exHeap \<le> m \<and> name (materials ?h' m) = ''glass'' \<and>
        transparent (materials ?h' m) = False \<and> opacity (materials ?h' m) = 1 \<and>
        blending (materials ?h' m) = NormalBlending \<and> side (materials ?h' m) = DoubleSide"
    by blast
  from t have "materials ?h' 0 = exMaterial" by (simp add: ex_defs)
  with a(1,2) b show ?thesis by blast
qed

text \<open>
  C4, as stated, fails for a renderable surface that is not a mesh. The
  \<^verbatim>\<open>THREE.Points\<close> at address 2 of the scene with points has a geometry and the material at
  address 0, translucent, additive and front-sided. After the effect its copy, at address
  6, has that very material, which existed before the effect and is as it was, and it
  does not cast shadows.
\<close>

theorem materials_counterexample:
  "\<not> isMesh (objects exPointsHeap 2) \<and> geometry (objects exPointsHeap 2) = Some 0 \<and>
   material (objects exPointsHeap 2) = SingleMaterial 0 \<and>
   processedScene (fst (sceneEffect (Some exPointsScene) initialModel exPointsHeap))
     = Some exPointsClone \<and>
   refsOf exPointsScene = [0, 1, 2, 3] \<and> refsOf exPointsClone = [4, 5, 6, 7] \<and>
   material (objects exPointsAfter 6) = SingleMaterial 0 \<and> 0 < nextMaterial exPointsHeap \<and>
   transparent (materials exPointsAfter 0) = True \<and> opacity (materials exPointsAfter 0) = 1 / 2 \<and>
   blending (materials exPointsAfter 0) = AdditiveBlending \<and>
   side (materials exPointsAfter 0) = FrontSide \<and>
   \<not> castShadow (objects exPointsAfter 6)"
proof -
  have ma: "materialsAllocated exPointsHeap exPointsScene"
    by (simp add: materialsAllocated_def ex_defs)
  have r: "refsOf exPointsScene = [0, 1, 2, 3]" "refsOf exPointsClone = [4, 5, 6, 7]"
    by (simp_all add: ex_defs)
  from effect_setUp [OF exPoints_effect exPoints_allocated ma]
  have "setUp exPointsHeap exPointsAfter 2 6" by (simp add: r)
  then have a: "material (objects exPointsAfter 6) = SingleMaterial 0"
    "\<not> castShadow (objects exPointsAfter 6)"
    by (simp_all add: setUp_def ex_defs)
  have "materials exPointsAfter 0 = exMaterial"
    using effect_frame(2) [OF exPoints_effect(1)] by (simp add: ex_defs)
  then have b: "transparent (materials exPointsAfter 0) = True"
    "opacity (materials exPointsAfter 0) = 1 / 2"
    "blending (materials exPointsAfter 0) = AdditiveBlending"
    "side (materials exPointsAfter 0) = FrontSide"
    by (simp_all add: exMaterial_def)
  have c: "\<not> isMesh (objects exPointsHeap 2)" "geometry (objects exPointsHeap 2) = Some 0"
    "material (objects exPointsHeap 2) = SingleMaterial 0" "0 < nextMaterial exPointsHeap"
    by (simp_all add: ex_defs)
  from a b c r exPoints_effect(2) show ?thesis by blast
qed

text \<open>
  C9, as the code has it. The effect changes no object and no material that existed before
  it ran: the copy is made of new objects, and every write to an object or to a material
  goes to them or to new materials. The geometries are not copied: the copy shares them
  with the source, and the effect leaves them as they were but for their bounding boxes,
  where a box that was \<^verbatim>\<open>null\<close> may now hold the box of the points of the geometry. This
  holds after one run and after a second run from the same scene, and the second run
  publishes the same scale factor and the same root position as the first: nothing
  drifts. Without a scene the effect does nothing.
\<close>

theorem source_untouched:
  assumes "sceneEffect (Some scene) st h = (st1, h1)" and "processedScene st1 = Some clone1"
    and "allocated h scene"
    and "sceneEffect (Some scene) st1 h1 = (st2, h2)" and "processedScene st2 = Some clone2"
  shows "(\<forall>r < nextObject h. objects h1 r = objects h r) \<and>
         (\<forall>m < nextMaterial h. materials h1 m = materials h m) \<and>
         (\<forall>g. boxCached (geometries h g) (geometries h1 g)) \<and>
         (\<forall>r \<in> set (refsOf clone1). nextObject h \<le> r) \<and>
         (\<forall>r < nextObject h. objects h2 r = objects h r) \<and>
         (\<forall>m < nextMaterial h. materials h2 m = materials h m) \<and>
         (\<forall>g. boxCached (geometries h g) (geometries h2 g)) \<and>
         modelScale st2 = modelScale st1 \<and>
         position (objects h2 (ref clone2)) = position (objects h1 (ref clone1)) \<and>
         sceneEffect None st h = (st, h)"
proof -
  note f1 = effect_frame [OF assms(1)]
  note f2 = effect_frame [OF assms(4)]
  from assms(1) obtain c g g' where p: "prepare scene h = (c, g)"
    and "st1 = st\<lparr>modelScale := jsDivide targetSize
                 (jsOr (max (max (vx (getSize (computeBoxG (gview g c))))
                                 (vy (getSize (computeBoxG (gview g c)))))
                            (vz (getSize (computeBoxG (gview g c))))) 1),
               processedScene := Some c\<rparr>"
    by (rule sceneEffect_cases)
  with assms(2) have "c = clone1" by simp
  with p have p1: "prepare scene h = (clone1, g)" by simp
  have fresh: "\<forall>r \<in> set (refsOf clone1). nextObject h \<le> r"
    using prepare_facts(1) [OF p1] by simp
  have al1: "allocated h1 scene" using assms(3) f1(3) by (auto simp: allocated_def)
  have "\<forall>r \<in> set (refsOf scene). geoSame (objects h r) (objects h1 r)"
    using assms(3) f1(1) by (simp add: allocated_def)
  moreover have "\<forall>x. boxOf (geometries h1 x) = boxOf (geometries h x)"
    using f1(5) by (simp add: boxCached_boxOf)
  ultimately have gv: "gview h1 scene = gview h scene" by (intro gview_cong(1))
  have o2: "\<forall>r < nextObject h. objects h2 r = objects h r"
    using f1(1,3) f2(1) by auto
  have m2: "\<forall>m < nextMaterial h. materials h2 m = materials h m"
    using f1(2,4) f2(2) by auto
  have g2: "\<forall>x. boxCached (geometries h x) (geometries h2 x)"
    using f1(5) f2(5) boxCached_trans by blast
  have s: "modelScale st2 = modelScale st1"
    using effect_result(1) [OF assms(1,2,3)] effect_result(1) [OF assms(4,5) al1] gv by simp
  have q: "position (objects h2 (ref clone2)) = position (objects h1 (ref clone1))"
    using effect_result(2) [OF assms(1,2,3)] effect_result(2) [OF assms(4,5) al1] gv by simp
  have "sceneEffect None st h = (st, h)" by (simp add: sceneEffect_def)
  with f1(1,2,5) fresh o2 m2 g2 s q show ?thesis by blast
qed

lemmas run_defs = sceneEffect_def prepare_def computeBox_def expandMeshes_def setFromObject_def
  materialSetup_def updateObject_def applySettings_def cloneMaterial_def applyMatrix4_def
  setFromPoints_def compose_def makeRotationFromEuler_def addVectors_def subVectors_def
  multiplyScalar_def minV_def maxV_def getSize_def getCenter_def computeBoundingBox_def Let_def

lemma exUncached_box:
  "boundingBox (geometries (snd (sceneEffect (Some exScene) initialModel exUncachedHeap)) 0)
     = Some (Box3 (Vector3 0 0 0) (Vector3 2 4 6))"
  by (simp add: ex_defs run_defs)

theorem source_untouched_witness:
  "objects (snd (sceneEffect (Some exScene) (fst (sceneEffect (Some exScene) initialModel exUncachedHeap)) (snd (sceneEffect (Some exScene) initialModel exUncachedHeap)))) 0 = objects exUncachedHeap 0 \<and>
   objects (snd (sceneEffect (Some exScene) (fst (sceneEffect (Some exScene) initialModel exUncachedHeap)) (snd (sceneEffect (Some exScene) initialModel exUncachedHeap)))) 1 = objects exUncachedHeap 1 \<and>
   materials (snd (sceneEffect (Some exScene) (fst (sceneEffect (Some exScene) initialModel exUncachedHeap)) (snd (sceneEffect (Some exScene) initialModel exUncachedHeap)))) 0 = materials exUncachedHeap 0 \<and>
   positions (geometries (snd (sceneEffect (Some exScene) (fst (sceneEffect (Some exScene) initialModel exUncachedHeap)) (snd (sceneEffect (Some exScene) initialModel exUncachedHeap)))) 0) = positions (geometries exUncachedHeap 0) \<and>
   objects (snd (sceneEffect (Some exScene) initialModel exUncachedHeap)) 1 = objects exUncachedHeap 1 \<and>
   materials (snd (sceneEffect (Some exScene) initialModel exUncachedHeap)) 0 = materials exUncachedHeap 0 \<and>
   modelScale (fst (sceneEffect (Some exScene) (fst (sceneEffect (Some exScene) initialModel exUncachedHeap)) (snd (sceneEffect (Some exScene) initialModel exUncachedHeap)))) = modelScale (fst (sceneEffect (Some exScene) initialModel exUncachedHeap))"
proof -
  let ?st1 = "fst (sceneEffect (Some exScene) initialModel exUncachedHeap)"
  let ?h1 = "snd (sceneEffect (Some exScene) initialModel exUncachedHeap)"
  have e1: "sceneEffect (Some exScene) initialModel exUncachedHeap = (?st1, ?h1)" by simp
  have c1: "processedScene ?st1 = Some (fst (prepare exScene exUncachedHeap))"
    by (rule sceneEffect_processedScene)
  have e2: "sceneEffect (Some exScene) ?st1 ?h1
      = (fst (sceneEffect (Some exScene) ?st1 ?h1), snd (sceneEffect (Some exScene) ?st1 ?h1))"
    by simp
  have c2: "processedScene (fst (sceneEffect (Some exScene) ?st1 ?h1))
      = Some (fst (prepare exScene ?h1))"
    by (rule sceneEffect_processedScene)
  have al: "allocated exUncachedHeap exScene" by (simp add: allocated_def ex_defs)
  have n: "(0::nat) < nextObject exUncachedHeap" "1 < nextObject exUncachedHeap"
    "0 < nextMaterial exUncachedHeap"
    by (simp_all add: ex_defs)
  note t = source_untouched [OF e1 c1 al e2 c2]
  from t have "boxCached (geometries exUncachedHeap 0)
      (geometries (snd (sceneEffect (Some exScene) ?st1 ?h1)) 0)" by blast
  then have "positions (geometries (snd (sceneEffect (Some exScene) ?st1 ?h1)) 0)
      = positions (geometries exUncachedHeap 0)" by (simp add: boxCached_def)
  with t n show ?thesis by blast
qed

text \<open>
  C9, as stated, fails: the source is not left bit for bit as it was. The mesh of the
  sample scene has the geometry at address 0; when the bounding box of that geometry is
  \<^verbatim>\<open>null\<close> before the effect, it holds a box after it: \<^verbatim>\<open>expandByObject\<close> has computed it
  and stored it in the geometry, which the copy shares with the source.
\<close>

theorem source_counterexample:
  "geometry (objects exUncachedHeap 1) = Some 0 \<and>
   boundingBox (geometries exUncachedHeap 0) = None \<and>
   boundingBox (geometries (snd (sceneEffect (Some exScene) initialModel exUncachedHeap)) 0)
     = Some (Box3 (Vector3 0 0 0) (Vector3 2 4 6)) \<and>
   geometries (snd (sceneEffect (Some exScene) initialModel exUncachedHeap)) 0
     \<noteq> geometries exUncachedHeap 0"
proof -
  have a: "geometry (objects exUncachedHeap 1) = Some 0"
    "boundingBox (geometries exUncachedHeap 0) = None"
    by (simp_all add: ex_defs)
  with exUncached_box have "geometries (snd (sceneEffect (Some exScene) initialModel exUncachedHeap)) 0
     \<noteq> geometries exUncachedHeap 0" by auto
  with a exUncached_box show ?thesis by blast
qed




end
